theory Spec2Isabelle
  imports Main "HOL-Library.Sublist"
begin

section \<open>Python string operations used by the pipeline\<close>

text \<open>
  A Python \<open>str\<close> is modelled as a \<open>string\<close>; a character is a code point below 256.
  \<open>isspace\<close> is \<open>str.isspace\<close> on one character of that range: the code points
  9 to 13, 28 to 32, 133 and 160.
\<close>

definition isspace :: "char \<Rightarrow> bool" where
  "isspace c = (of_char c \<in> {9, 10, 11, 12, 13, 28, 29, 30, 31, 32, 133, 160 :: nat})"

text \<open>
  \<open>s.split()\<close> with no argument: runs of whitespace separate the tokens, and no empty
  token is produced. \<open>cur\<close> is the token being read.
\<close>

fun split_scan :: "string \<Rightarrow> string \<Rightarrow> string list" where
  "split_scan cur [] = (if cur = [] then [] else [cur])"
| "split_scan cur (c # cs) =
     (if isspace c then (if cur = [] then split_scan [] cs else cur # split_scan [] cs)
      else split_scan (cur @ [c]) cs)"

definition split :: "string \<Rightarrow> string list" where
  "split s = split_scan [] s"

text \<open>
  \<open>s.split(sep)\<close> for a one-character separator: every occurrence of the separator
  ends a piece, empty pieces are kept, and the empty string gives one empty piece.
\<close>

fun split_sep_scan :: "char \<Rightarrow> string \<Rightarrow> string \<Rightarrow> string list" where
  "split_sep_scan sep cur [] = [cur]"
| "split_sep_scan sep cur (c # cs) =
     (if c = sep then cur # split_sep_scan sep [] cs
      else split_sep_scan sep (cur @ [c]) cs)"

definition split_sep :: "char \<Rightarrow> string \<Rightarrow> string list" where
  "split_sep sep s = split_sep_scan sep [] s"

text \<open>\<open>sep.join(xs)\<close>.\<close>

fun join :: "string \<Rightarrow> string list \<Rightarrow> string" where
  "join sep [] = []"
| "join sep [x] = x"
| "join sep (x # y # ys) = x @ sep @ join sep (y # ys)"

text \<open>\<open>s.endswith(suffix)\<close>, \<open>s.endswith((a, b))\<close>, \<open>s.startswith(prefix)\<close>, \<open>s.strip()\<close>.\<close>

definition endswith :: "string \<Rightarrow> string \<Rightarrow> bool" where
  "endswith s suf = (length suf \<le> length s \<and> drop (length s - length suf) s = suf)"

definition endswith2 :: "string \<Rightarrow> string \<times> string \<Rightarrow> bool" where
  "endswith2 s sufs = (endswith s (fst sufs) \<or> endswith s (snd sufs))"

definition startswith :: "string \<Rightarrow> string \<Rightarrow> bool" where
  "startswith s pre = (take (length pre) s = pre)"

definition strip :: "string \<Rightarrow> string" where
  "strip s = rev (dropWhile isspace (rev (dropWhile isspace s)))"

section \<open>Documents and external services\<close>

text \<open>
  A cell value as \<open>iter_rows(values_only=True)\<close> yields it: \<open>None\<close>, a string, an
  integer or a boolean. Any other value (a float, a date) is carried by the two things
  the code asks of it: its truth value and its \<open>str()\<close> text.
\<close>

datatype cell = CNone | CStr string | CInt int | CBool bool | COther bool string

text \<open>The truth value of a cell, as \<open>if cell\<close> tests it.\<close>

fun truthy :: "cell \<Rightarrow> bool" where
  "truthy CNone = False"
| "truthy (CStr s) = (s \<noteq> [])"
| "truthy (CInt i) = (i \<noteq> 0)"
| "truthy (CBool b) = b"
| "truthy (COther b s) = b"

text \<open>\<open>str(n)\<close> for an integer: its decimal digits, with a minus sign when negative.\<close>

definition digit_char :: "nat \<Rightarrow> char" where
  "digit_char d = char_of (48 + d)"

function str_nat :: "nat \<Rightarrow> string" where
  "str_nat n = (if n < 10 then [digit_char n] else str_nat (n div 10) @ [digit_char (n mod 10)])"
  by pat_completeness auto
termination
  by (relation "measure id") auto

declare str_nat.simps [simp del]

definition str_int :: "int \<Rightarrow> string" where
  "str_int i = (if i < 0 then CHR ''-'' # str_nat (nat (- i)) else str_nat (nat i))"

fun str :: "cell \<Rightarrow> string" where
  "str CNone = ''None''"
| "str (CStr s) = s"
| "str (CInt i) = str_int i"
| "str (CBool b) = (if b then ''True'' else ''False'')"
| "str (COther b s) = s"

text \<open>
  A worksheet of a loaded workbook: its title and the rows \<open>iter_rows\<close> yields, in order.
\<close>

record worksheet =
  title :: string
  iter_rows :: "cell list list"

text \<open>
  A word-processing document as \<open>docx.Document\<close> exposes it: the paragraph texts, and
  the tables, each a list of rows of cell texts.
\<close>

record document =
  paragraphs :: "string list"
  tables :: "string list list list"

text \<open>
  An uploaded file: its name, its media type, and what each external parser makes of
  its bytes (\<open>None\<close> where the parser raises). A shape of a slide is \<open>Some\<close> of its text
  when it has a \<open>text\<close> attribute, \<open>None\<close> otherwise.
\<close>

record uploaded_file =
  name :: string
  type :: string
  decode_utf8 :: "string option"
  pdf_pages :: "string list option"
  docx_document :: "document option"
  load_workbook :: "worksheet list option"
  pptx_slides :: "string option list list option"
  image_to_string :: "string option"

text \<open>
  The failures of the external calls, and the exception Streamlit raises when a run
  creates a second widget with the identity of an earlier one.
\<close>

datatype error =
  DecodeError | CorruptDocument | OcrFailure | DetectorFailure | AnonymizerFailure
  | DuplicateWidgetID

text \<open>
  The external services. A detected span is its start offset, end offset and entity type.
  \<open>chain_run k t\<close> is the summarizer's answer to the text \<open>t\<close> on its \<open>k\<close>-th call of the
  session (\<open>None\<close> when the call raises); \<open>now k\<close> is the formatted time at the
  \<open>k\<close>-th reading of the clock.
\<close>

type_synonym span = "nat \<times> nat \<times> string"

record services =
  analyze :: "string \<Rightarrow> span list option"
  anonymize :: "string \<Rightarrow> span list \<Rightarrow> string option"
  chain_run :: "nat \<Rightarrow> string \<Rightarrow> string option"
  now :: "nat \<Rightarrow> string"

section \<open>Text extraction (\<open>extract_text\<close> of file_cleanser.py)\<close>

text \<open>Each loop of the function is a fold over what it iterates, the text being the state.\<close>

definition pdf_text :: "string \<Rightarrow> string list \<Rightarrow> string" where
  "pdf_text text pdf = foldl (\<lambda>text page. text @ page) text pdf"

definition docx_row_text :: "string \<Rightarrow> string list \<Rightarrow> string" where
  "docx_row_text text cells = foldl (\<lambda>text cell. text @ cell @ '' '') text cells @ [CHR 0x0A]"

definition docx_table_text :: "string \<Rightarrow> string list list \<Rightarrow> string" where
  "docx_table_text text rows = foldl docx_row_text text rows"

definition docx_text :: "string \<Rightarrow> document \<Rightarrow> string" where
  "docx_text text doc =
     foldl docx_table_text
       (foldl (\<lambda>text para. text @ para @ [CHR 0x0A]) text (paragraphs doc))
       (tables doc)"

definition xlsx_row_text :: "string \<Rightarrow> cell list \<Rightarrow> string" where
  "xlsx_row_text text row =
     foldl (\<lambda>text cell. if truthy cell then text @ str cell @ '' '' else text) text row
       @ [CHR 0x0A]"

definition xlsx_sheet_text :: "string \<Rightarrow> worksheet \<Rightarrow> string" where
  "xlsx_sheet_text text sheet = foldl xlsx_row_text text (iter_rows sheet)"

definition xlsx_text :: "string \<Rightarrow> worksheet list \<Rightarrow> string" where
  "xlsx_text text workbook = foldl xlsx_sheet_text text workbook"

definition pptx_slide_text :: "string \<Rightarrow> string option list \<Rightarrow> string" where
  "pptx_slide_text text shapes =
     foldl (\<lambda>text shape. case shape of None \<Rightarrow> text | Some t \<Rightarrow> text @ t @ [CHR 0x0A])
       text shapes"

definition pptx_text :: "string \<Rightarrow> string option list list \<Rightarrow> string" where
  "pptx_text text slides = foldl pptx_slide_text text slides"

definition extract_text :: "uploaded_file \<Rightarrow> error + string" where
  "extract_text file =
     (if type file = ''text/plain'' then
        (case decode_utf8 file of None \<Rightarrow> Inl DecodeError | Some text \<Rightarrow> Inr text)
      else if type file = ''application/pdf'' then
        (case pdf_pages file of None \<Rightarrow> Inl CorruptDocument
         | Some pdf \<Rightarrow> Inr (pdf_text [] pdf))
      else if endswith2 (name file) (''.docx'', ''.DOCX'') then
        (case docx_document file of None \<Rightarrow> Inl CorruptDocument
         | Some doc \<Rightarrow> Inr (docx_text [] doc))
      else if endswith2 (name file) (''.xlsx'', ''.XLSX'') then
        (case load_workbook file of None \<Rightarrow> Inl CorruptDocument
         | Some workbook \<Rightarrow> Inr (xlsx_text [] workbook))
      else if endswith2 (name file) (''.pptx'', ''.PPTX'') then
        (case pptx_slides file of None \<Rightarrow> Inl CorruptDocument
         | Some slides \<Rightarrow> Inr (pptx_text [] slides))
      else if startswith (type file) ''image'' then
        (case image_to_string file of None \<Rightarrow> Inl OcrFailure | Some text \<Rightarrow> Inr text)
      else Inr [])"

section \<open>The batch pipeline (module level of file_cleanser.py)\<close>

text \<open>
  The redaction of one text: the detector's spans are handed to the anonymizer, whose
  \<open>text\<close> is the result. Either call may raise.
\<close>

definition redact :: "services \<Rightarrow> string \<Rightarrow> error + string" where
  "redact sv text =
     (case analyze sv text of None \<Rightarrow> Inl DetectorFailure
      | Some results \<Rightarrow>
          (case anonymize sv text results of None \<Rightarrow> Inl AnonymizerFailure
           | Some anonymized \<Rightarrow> Inr anonymized))"

text \<open>
  What the script builds: a sheet of the clean workbook is its title and the cells
  written so far, by row and column; a slide is its layout index and its title text.
\<close>

record clean_sheet =
  sheet_title :: string
  cells :: "nat \<times> nat \<rightharpoonup> string"

record slide =
  layout :: nat
  title_text :: string

datatype data =
  Text string | Docx "string list" | Xlsx "clean_sheet list" | Pptx "slide list"

text \<open>
  The elements a run puts on the page, with the pictographs of the labels left out:
  a download button is its label, data and file name; a history line is its number,
  file name and timestamp.
\<close>

datatype element =
  Subheader string
  | Text_area string string
  | Download_button string data string
  | Write nat string string
  | Success string
  | Warning string
  | Info string
  | Error string
  | Markdown string

record upload_record =
  filename :: string
  timestamp :: string

text \<open>
  The state a run works on: the session's upload history, the page, and how often the
  clock and the summarizer have been called.
\<close>

record session =
  upload_history :: "upload_record list"
  page :: "element list"
  clock_reads :: nat
  chain_calls :: nat

text \<open>A run either reaches its end or is aborted by an exception; the state survives both.\<close>

datatype outcome = Completed session | Aborted error session

text \<open>The spreadsheet export: the loop over the tokens, over the rows, over the sheets.\<close>

definition write_row :: "(nat \<times> nat \<rightharpoonup> string) \<Rightarrow> nat \<Rightarrow> string list \<Rightarrow> (nat \<times> nat \<rightharpoonup> string)" where
  "write_row cs r toks = foldl (\<lambda>cs (c, cell_val). cs((r, c) \<mapsto> cell_val)) cs (enumerate 1 toks)"

definition row_text :: "cell list \<Rightarrow> string" where
  "row_text row = join '' '' (map (\<lambda>cell. if truthy cell then str cell else []) row)"

fun clean_rows :: "services \<Rightarrow> (nat \<times> nat \<rightharpoonup> string) \<Rightarrow> (nat \<times> cell list) list
    \<Rightarrow> error + (nat \<times> nat \<rightharpoonup> string)" where
  "clean_rows sv cs [] = Inr cs"
| "clean_rows sv cs ((r, row) # rest) =
     (case redact sv (row_text row) of Inl e \<Rightarrow> Inl e
      | Inr anonymized_row_text \<Rightarrow> clean_rows sv (write_row cs r (split anonymized_row_text)) rest)"

fun clean_sheets :: "services \<Rightarrow> clean_sheet list \<Rightarrow> worksheet list \<Rightarrow> error + clean_sheet list" where
  "clean_sheets sv clean_wb [] = Inr clean_wb"
| "clean_sheets sv clean_wb (sheet # sheets) =
     (case clean_rows sv Map.empty (enumerate 1 (iter_rows sheet)) of Inl e \<Rightarrow> Inl e
      | Inr cs \<Rightarrow>
          clean_sheets sv (clean_wb @ [\<lparr>sheet_title = title sheet, cells = cs\<rparr>]) sheets)"

text \<open>The presentation export: one slide of layout 5 per line.\<close>

definition add_slides :: "slide list \<Rightarrow> string list \<Rightarrow> slide list" where
  "add_slides pres lines =
     foldl (\<lambda>pres line. pres @ [\<lparr>layout = 5, title_text = take 100 line\<rparr>]) pres lines"

definition add_paragraphs :: "string list \<Rightarrow> string list \<Rightarrow> string list" where
  "add_paragraphs doc lines = foldl (\<lambda>doc line. doc @ [line]) doc lines"

text \<open>The export branches, in the order of the source.\<close>

definition export :: "services \<Rightarrow> uploaded_file \<Rightarrow> string \<Rightarrow> error + element list" where
  "export sv file anonymized_text =
     (if endswith (name file) ''.txt'' then
        Inr [Download_button (''Download Cleaned TXT ('' @ name file @ '')'')
               (Text anonymized_text) (''cleaned_'' @ name file)]
      else if endswith2 (name file) (''.docx'', ''.DOCX'') then
        Inr [Download_button (''Download Cleaned DOCX ('' @ name file @ '')'')
               (Docx (add_paragraphs [] (split_sep (CHR 0x0A) anonymized_text)))
               (''cleaned_'' @ name file)]
      else if endswith2 (name file) (''.xlsx'', ''.XLSX'') then
        (case load_workbook file of None \<Rightarrow> Inl CorruptDocument
         | Some original_wb \<Rightarrow>
             (case clean_sheets sv [] original_wb of Inl e \<Rightarrow> Inl e
              | Inr clean_wb \<Rightarrow>
                  Inr [Download_button (''Download Cleaned XLSX ('' @ name file @ '')'')
                         (Xlsx clean_wb) (''cleaned_'' @ name file)]))
      else if endswith2 (name file) (''.pptx'', ''.PPTX'') then
        Inr [Download_button (''Download Cleaned PPTX ('' @ name file @ '')'')
               (Pptx (add_slides [] (split_sep (CHR 0x0A) anonymized_text)))
               (''cleaned_'' @ name file)]
      else if startswith (type file) ''image'' \<or> endswith (name file) ''.pdf'' then
        Inr [Download_button (''Download Cleaned TXT ('' @ name file @ '')'')
               (Text anonymized_text) (''cleaned_'' @ name file @ ''.txt'')]
      else Inr [])"

text \<open>The summary: any failure of the call is caught and replaced by a fixed text.\<close>

definition ai_summary :: "services \<Rightarrow> nat \<Rightarrow> string \<Rightarrow> string" where
  "ai_summary sv k anonymized_text =
     (case chain_run sv k anonymized_text of None \<Rightarrow> ''AI summary unavailable.''
      | Some summary \<Rightarrow> summary)"

text \<open>
  \<open>st.text_area\<close> and \<open>st.download_button\<close> create widgets, and the script gives
  them no key. Streamlit then identifies a widget by its kind and its parameters, and
  creating a widget whose identity an earlier widget of the same run has raises
  \<open>DuplicateWidgetID\<close>, which the script does not catch. The parameters that vary here
  are the label and the value of a text area, and the label, the file name and the data
  of a download button (the height and the media type follow from the label). The
  identity of a download button is taken to be its label and file name, leaving its data
  out: this is the coarsest reading of the rule, under which the most widgets collide, so
  a run that reaches its end here does so under any finer reading as well. Headers and
  history lines are no widgets.
\<close>

fun widget_id :: "element \<Rightarrow> (string \<times> string \<times> string) option" where
  "widget_id (Text_area label val) = Some (''text_area'', label, val)"
| "widget_id (Download_button label dat file_name) = Some (''download_button'', label, file_name)"
| "widget_id e = None"

definition add_widget :: "session \<Rightarrow> element \<Rightarrow> outcome" where
  "add_widget st e =
     (if widget_id e \<in> set (map widget_id (page st)) then Aborted DuplicateWidgetID st
      else Completed (st\<lparr>page := page st @ [e]\<rparr>))"

text \<open>The body of the loop over the uploaded files.\<close>

definition append_history :: "services \<Rightarrow> session \<Rightarrow> uploaded_file \<Rightarrow> session" where
  "append_history sv st file =
     st\<lparr>upload_history :=
          upload_history st @ [\<lparr>filename = name file, timestamp = now sv (clock_reads st)\<rparr>],
        clock_reads := Suc (clock_reads st)\<rparr>"

definition show_summary :: "services \<Rightarrow> session \<Rightarrow> uploaded_file \<Rightarrow> string \<Rightarrow> outcome" where
  "show_summary sv st file anonymized_text =
     add_widget
       (st\<lparr>page := page st @ [Subheader (''AI Summary for '' @ name file)],
           chain_calls := Suc (chain_calls st)\<rparr>)
       (Text_area ''AI Summary'' (ai_summary sv (chain_calls st) anonymized_text))"

text \<open>The export branch taken creates its download button once the data is built.\<close>

fun download_buttons :: "session \<Rightarrow> element list \<Rightarrow> outcome" where
  "download_buttons st [] = Completed st"
| "download_buttons st (button # buttons) =
     (case add_widget st button of Aborted e st' \<Rightarrow> Aborted e st'
      | Completed st' \<Rightarrow> download_buttons st' buttons)"

definition process_file :: "services \<Rightarrow> session \<Rightarrow> uploaded_file \<Rightarrow> outcome" where
  "process_file sv st file =
     (case extract_text file of Inl e \<Rightarrow> Aborted e st
      | Inr original_text \<Rightarrow>
          (let st1 = append_history sv st file in
           case redact sv original_text of Inl e \<Rightarrow> Aborted e st1
           | Inr anonymized_text \<Rightarrow>
               (case show_summary sv st1 file anonymized_text of Aborted e st2 \<Rightarrow> Aborted e st2
                | Completed st2 \<Rightarrow>
                    (case export sv file anonymized_text of Inl e \<Rightarrow> Aborted e st2
                     | Inr buttons \<Rightarrow> download_buttons st2 buttons))))"

fun process_files :: "services \<Rightarrow> session \<Rightarrow> uploaded_file list \<Rightarrow> outcome" where
  "process_files sv st [] = Completed st"
| "process_files sv st (file # files) =
     (case process_file sv st file of Aborted e st' \<Rightarrow> Aborted e st'
      | Completed st' \<Rightarrow> process_files sv st' files)"

text \<open>The history display that ends the script: newest entry first, numbered from 1.\<close>

definition display_history :: "session \<Rightarrow> session" where
  "display_history st =
     st\<lparr>page := page st @ Subheader ''Upload History'' #
          map (\<lambda>(i, entry). Write i (filename entry) (timestamp entry))
            (enumerate 1 (rev (upload_history st)))\<rparr>"

text \<open>
  One run of the script on the uploaded files. The page starts empty; the upload
  history is the session's.
\<close>

definition run_script :: "services \<Rightarrow> session \<Rightarrow> uploaded_file list \<Rightarrow> outcome" where
  "run_script sv st uploaded_files =
     (case process_files sv (st\<lparr>page := []\<rparr>) uploaded_files of
        Aborted e st' \<Rightarrow> Aborted e st'
      | Completed st' \<Rightarrow> Completed (display_history st'))"

section \<open>The single-file pipeline (module level of File_analyser.py)\<close>

text \<open>
  The script extracts with the same chain of branches as \<open>extract_text\<close>, written
  inline. \<open>groq\<close> is the completion call of the client when an API key is set. The
  widgets of a run have three different labels, so no two of them share an identity.
\<close>

definition ai_insights :: "(string \<Rightarrow> string option) option \<Rightarrow> string \<Rightarrow> element list" where
  "ai_insights groq anonymized =
     (case groq of
        None \<Rightarrow> [Info ''No GROQ_API_KEY found. Please set it to enable AI insights.'']
      | Some create \<Rightarrow>
          Subheader ''AI Insights (Groq)'' #
            (case create anonymized of None \<Rightarrow> [Error ''Groq API error'']
             | Some ai_response \<Rightarrow> [Markdown ai_response]))"

definition file_analyser ::
    "services \<Rightarrow> (string \<Rightarrow> string option) option \<Rightarrow> uploaded_file option \<Rightarrow> error + element list" where
  "file_analyser sv groq uploaded_file =
     (case uploaded_file of None \<Rightarrow> Inr []
      | Some file \<Rightarrow>
          (case extract_text file of Inl e \<Rightarrow> Inl e
           | Inr text \<Rightarrow>
               if strip text \<noteq> [] then
                 (case redact sv text of Inl e \<Rightarrow> Inl e
                  | Inr anonymized \<Rightarrow>
                      Inr ([Success (''File uploaded: '' @ name file),
                            Subheader ''Extracted Text'',
                            Text_area ''Raw Content'' text,
                            Subheader ''Anonymized Text'',
                            Text_area ''Cleansed Output'' anonymized,
                            Download_button ''Download Cleaned Text'' (Text anonymized)
                              ''cleaned_output.txt'']
                           @ ai_insights groq anonymized))
               else
                 Inr [Success (''File uploaded: '' @ name file),
                      Warning ''No text could be extracted from this file.'']))"

section \<open>Notions used to state the properties\<close>

text \<open>
  The kind of a file is resolved when one of the tests of the extraction chain holds:
  on the media type, or on the suffix of the name.
\<close>

definition kind_resolved :: "uploaded_file \<Rightarrow> bool" where
  "kind_resolved file =
     (type file = ''text/plain'' \<or> type file = ''application/pdf''
      \<or> endswith2 (name file) (''.docx'', ''.DOCX'')
      \<or> endswith2 (name file) (''.xlsx'', ''.XLSX'')
      \<or> endswith2 (name file) (''.pptx'', ''.PPTX'')
      \<or> startswith (type file) ''image'')"

text \<open>
  The flattened text view as the specification words it: the cells of a row joined by
  spaces, the rows of a sheet joined by newlines, the sheets concatenated.
\<close>

definition spec_flattened_text :: "worksheet list \<Rightarrow> string" where
  "spec_flattened_text workbook =
     concat (map (\<lambda>sheet. join [CHR 0x0A] (map (\<lambda>row. join '' '' (map str row)) (iter_rows sheet)))
       workbook)"

text \<open>Concrete inputs on which the properties below are evaluated.\<close>

definition deck :: uploaded_file where
  "deck = \<lparr>name = ''deck.pptx'', type = ''application/vnd.ms-powerpoint'', decode_utf8 = None,
     pdf_pages = None, docx_document = None, load_workbook = None,
     pptx_slides = Some [[Some ''Intro'', None], [Some ''Call <PERSON>'']],
     image_to_string = None\<rparr>"

text \<open>
  Services that detect nothing: the detector finds no span, the anonymizer returns its
  text, the summarizer answers, the clock stands still.
\<close>

definition quiet :: services where
  "quiet = \<lparr>analyze = (\<lambda>text. Some []), anonymize = (\<lambda>text results. Some text),
     chain_run = (\<lambda>k text. Some ''A summary.''), now = (\<lambda>k. ''2024-05-01 10:00:00'')\<rparr>"

definition memo :: uploaded_file where
  "memo = \<lparr>name = ''memo.docx'',
     type = ''application/vnd.openxmlformats-officedocument.wordprocessingml.document'',
     decode_utf8 = None, pdf_pages = None,
     docx_document = Some \<lparr>paragraphs = [''Dear Ann'', ''Regards''],
                              tables = [[[''a'', ''b''], [''c'']], [[''d'']]]\<rparr>,
     load_workbook = None, pptx_slides = None, image_to_string = None\<rparr>"

definition ledger_book :: "worksheet list" where
  "ledger_book = [\<lparr>title = ''Sheet1'', iter_rows = [[CStr ''Alice'', CInt 0, CStr ''x'']]\<rparr>]"

definition ledger :: uploaded_file where
  "ledger = \<lparr>name = ''ledger.xlsx'',
     type = ''application/vnd.openxmlformats-officedocument.spreadsheetml.sheet'',
     decode_utf8 = None, pdf_pages = None, docx_document = None,
     load_workbook = Some ledger_book, pptx_slides = None, image_to_string = None\<rparr>"

definition report_Docx :: uploaded_file where
  "report_Docx = \<lparr>name = ''Report.Docx'',
     type = ''application/vnd.openxmlformats-officedocument.wordprocessingml.document'',
     decode_utf8 = None, pdf_pages = None,
     docx_document = Some \<lparr>paragraphs = [''Dear Ann''], tables = []\<rparr>,
     load_workbook = None, pptx_slides = None, image_to_string = None\<rparr>"

definition ledger_clean :: "clean_sheet list" where
  "ledger_clean = [\<lparr>sheet_title = ''Sheet1'', cells = [(1, 1) \<mapsto> ''Alice'', (1, 2) \<mapsto> ''x'']\<rparr>]"

text \<open>The state an outcome leaves.\<close>

fun outcome_session :: "outcome \<Rightarrow> session" where
  "outcome_session (Completed st) = st"
| "outcome_session (Aborted e st) = st"

text \<open>The history lines among the elements of a page, in order.\<close>

fun history_lines :: "element list \<Rightarrow> (nat \<times> string \<times> string) list" where
  "history_lines [] = []"
| "history_lines (Write i f t # es) = (i, f, t) # history_lines es"
| "history_lines (e # es) = history_lines es"

definition fresh :: session where
  "fresh = \<lparr>upload_history = [], page = [], clock_reads = 0, chain_calls = 0\<rparr>"

definition blank :: uploaded_file where
  "blank = \<lparr>name = ''blank.docx'',
     type = ''application/vnd.openxmlformats-officedocument.wordprocessingml.document'',
     decode_utf8 = None, pdf_pages = None,
     docx_document = Some \<lparr>paragraphs = [[]], tables = []\<rparr>,
     load_workbook = None, pptx_slides = None, image_to_string = None\<rparr>"

definition offline :: services where
  "offline = quiet\<lparr>chain_run := (\<lambda>k t. None)\<rparr>"

definition letter :: uploaded_file where
  "letter = \<lparr>name = ''letter.txt'', type = ''text/plain'', decode_utf8 = Some ''Hi'',
     pdf_pages = None, docx_document = None, load_workbook = None, pptx_slides = None,
     image_to_string = None\<rparr>"

text \<open>
  Services that mask a name: the detector finds the person \<open>Alice\<close> at the start of a
  text and nowhere else, the anonymizer puts the entity type in angle brackets in place
  of each span, the summarizer answers with the text it was given.
\<close>

definition masking :: services where
  "masking = \<lparr>analyze = (\<lambda>text. Some (if take 5 text = ''Alice'' then [(0, 5, ''PERSON'')] else [])),
     anonymize = (\<lambda>text results. Some (foldr (\<lambda>(start, stop, entity) t.
                    take start t @ ''<'' @ entity @ ''>'' @ drop stop t) results text)),
     chain_run = (\<lambda>k text. Some (''Summary of '' @ text)),
     now = (\<lambda>k. if k = 0 then ''2024-05-01 10:00:00'' else ''2024-05-01 10:00:05'')\<rparr>"

definition ledger_masked :: "clean_sheet list" where
  "ledger_masked = [\<lparr>sheet_title = ''Sheet1'', cells = [(1, 1) \<mapsto> ''<PERSON>'', (1, 2) \<mapsto> ''x'']\<rparr>]"

text \<open>
  A workbook whose second row starts with the name, and the text extraction flattens
  it to.
\<close>

definition roster_book :: "worksheet list" where
  "roster_book = [\<lparr>title = ''Staff'', iter_rows = [[CStr ''Bob''], [CStr ''Alice'', CStr ''x'']]\<rparr>]"

definition roster :: uploaded_file where
  "roster = \<lparr>name = ''roster.xlsx'',
     type = ''application/vnd.openxmlformats-officedocument.spreadsheetml.sheet'',
     decode_utf8 = None, pdf_pages = None, docx_document = None,
     load_workbook = Some roster_book, pptx_slides = None, image_to_string = None\<rparr>"

definition roster_text :: string where
  "roster_text = ''Bob '' @ [CHR 0x0A] @ ''Alice x '' @ [CHR 0x0A]"

definition roster_clean :: "clean_sheet list" where
  "roster_clean = [\<lparr>sheet_title = ''Staff'',
     cells = [(1, 1) \<mapsto> ''Bob'', (2, 1) \<mapsto> ''<PERSON>'', (2, 2) \<mapsto> ''x'']\<rparr>]"

text \<open>A second text file, for batches of two.\<close>

definition minutes :: uploaded_file where
  "minutes = \<lparr>name = ''minutes.txt'', type = ''text/plain'', decode_utf8 = Some ''Alice called'',
     pdf_pages = None, docx_document = None, load_workbook = None, pptx_slides = None,
     image_to_string = None\<rparr>"

section \<open>Auxiliary lemmas\<close>

lemma foldl_append_concat: "foldl (\<lambda>t x. t @ f x) t xs = t @ concat (map f xs)"
  by (induction xs arbitrary: t) simp_all

lemma endswith_suffix: "endswith s suf = suffix suf s"
proof
  assume "endswith s suf"
  then have "drop (length s - length suf) s = suf" by (simp add: endswith_def)
  then show "suffix suf s" by (metis suffix_drop)
next
  assume "suffix suf s"
  then obtain p where "s = p @ suf" by (auto simp: suffix_def)
  then show "endswith s suf" by (simp add: endswith_def)
qed

text \<open>Two suffixes of one name: the shorter is a suffix of the longer.\<close>

lemma endswith_both:
  assumes "endswith s a" and "endswith s b" and "length b \<le> length a"
  shows "endswith a b"
proof -
  from assms(1,2) have "suffix a s" "suffix b s" by (simp_all add: endswith_suffix)
  then have "suffix a b \<or> suffix b a" by (rule suffix_same_cases)
  then have "suffix b a"
  proof
    assume "suffix a b"
    then have "length a \<le> length b" by (rule suffix_length_le)
    with assms(3) have "length a = length b" by simp
    with \<open>suffix a b\<close> have "a = b" by (auto simp: suffix_def)
    then show ?thesis by simp
  qed
  then show ?thesis by (simp add: endswith_suffix)
qed

lemma split_sep_scan_length:
  "length (split_sep_scan sep cur s) = Suc (count_list s sep)"
  by (induction s arbitrary: cur) simp_all

lemma split_sep_length: "length (split_sep sep s) = Suc (count_list s sep)"
  by (simp add: split_sep_def split_sep_scan_length)

lemma split_sep_scan_join:
  "join [sep] (split_sep_scan sep cur s) = cur @ s"
proof (induction s arbitrary: cur)
  case Nil
  then show ?case by simp
next
  case (Cons c cs)
  show ?case
  proof (cases "c = sep")
    case True
    have "length (split_sep_scan sep [] cs) = Suc (count_list cs sep)"
      by (rule split_sep_scan_length)
    then obtain y ys where eq: "split_sep_scan sep [] cs = y # ys"
      by (cases "split_sep_scan sep [] cs") simp_all
    from Cons[of "[]"] have "join [sep] (y # ys) = cs" by (simp add: eq)
    with True eq show ?thesis by simp
  next
    case False
    with Cons[of "cur @ [c]"] show ?thesis by simp
  qed
qed

lemma split_sep_scan_no_sep:
  "sep \<notin> set cur \<Longrightarrow> \<forall>line \<in> set (split_sep_scan sep cur s). sep \<notin> set line"
proof (induction s arbitrary: cur)
  case Nil
  then show ?case by simp
next
  case (Cons c cs)
  have nil: "\<forall>line \<in> set (split_sep_scan sep [] cs). sep \<notin> set line"
    by (rule Cons.IH) simp
  show ?case
  proof (cases "c = sep")
    case True
    with nil Cons.prems show ?thesis by simp
  next
    case False
    with Cons.prems have "sep \<notin> set (cur @ [c])" by simp
    then have "\<forall>line \<in> set (split_sep_scan sep (cur @ [c]) cs). sep \<notin> set line"
      by (rule Cons.IH)
    with False show ?thesis by simp
  qed
qed

lemma add_slides_map:
  "add_slides pres lines = pres @ map (\<lambda>line. \<lparr>layout = 5, title_text = take 100 line\<rparr>) lines"
  unfolding add_slides_def by (induction lines arbitrary: pres) simp_all

lemma endswith_excl:
  "endswith s a \<Longrightarrow> length b \<le> length a \<Longrightarrow> \<not> endswith a b \<Longrightarrow> \<not> endswith s b"
  using endswith_both by blast

lemma endswith2_excl:
  assumes "endswith2 s (a1, a2)"
    and "length b \<le> length a1" "length b \<le> length a2"
    and "\<not> endswith a1 b" "\<not> endswith a2 b"
  shows "\<not> endswith s b"
  using assms unfolding endswith2_def by (auto dest: endswith_excl)

lemma endswith2_excl2:
  assumes "endswith2 s (a1, a2)"
    and "length b1 \<le> length a1" "length b1 \<le> length a2"
    and "length b2 \<le> length a1" "length b2 \<le> length a2"
    and "\<not> endswith a1 b1" "\<not> endswith a2 b1" "\<not> endswith a1 b2" "\<not> endswith a2 b2"
  shows "\<not> endswith2 s (b1, b2)"
proof -
  have "\<not> endswith s b1" using assms(1,2,3,6,7) by (rule endswith2_excl)
  moreover have "\<not> endswith s b2" using assms(1,4,5,8,9) by (rule endswith2_excl)
  ultimately show ?thesis by (simp add: endswith2_def)
qed

lemma pptx_not_txt: "endswith2 n (''.pptx'', ''.PPTX'') \<Longrightarrow> \<not> endswith n ''.txt''"
  by (erule endswith2_excl) (simp_all add: endswith_def)

lemma pptx_not_docx: "endswith2 n (''.pptx'', ''.PPTX'') \<Longrightarrow> \<not> endswith2 n (''.docx'', ''.DOCX'')"
  by (erule endswith2_excl2) (simp_all add: endswith_def)

lemma pptx_not_xlsx: "endswith2 n (''.pptx'', ''.PPTX'') \<Longrightarrow> \<not> endswith2 n (''.xlsx'', ''.XLSX'')"
  by (erule endswith2_excl2) (simp_all add: endswith_def)

lemma xlsx_not_txt: "endswith2 n (''.xlsx'', ''.XLSX'') \<Longrightarrow> \<not> endswith n ''.txt''"
  by (erule endswith2_excl) (simp_all add: endswith_def)

lemma xlsx_not_docx: "endswith2 n (''.xlsx'', ''.XLSX'') \<Longrightarrow> \<not> endswith2 n (''.docx'', ''.DOCX'')"
  by (erule endswith2_excl2) (simp_all add: endswith_def)

section \<open>The export branch taken\<close>

lemma export_pptx:
  assumes "endswith2 (name file) (''.pptx'', ''.PPTX'')"
  shows "export sv file anonymized_text =
     Inr [Download_button (''Download Cleaned PPTX ('' @ name file @ '')'')
            (Pptx (add_slides [] (split_sep (CHR 0x0A) anonymized_text)))
            (''cleaned_'' @ name file)]"
  using assms pptx_not_txt[OF assms] pptx_not_docx[OF assms] pptx_not_xlsx[OF assms]
  by (simp add: export_def)

section \<open>Presentation export\<close>

text \<open>
  C3. A presentation is rebuilt from the redacted text with one slide per piece of the
  text between newlines: the slides are, in order, the pieces of \<open>split("\n")\<close>, each
  slide of layout 5 with the piece cut to its first 100 characters as title. The number of
  pieces is one more than the number of newlines, and the pieces joined by newlines give
  the text back.
\<close>

theorem pptx_one_slide_per_line:
  assumes "endswith2 (name file) (''.pptx'', ''.PPTX'')"
  shows "export sv file anonymized_text =
       Inr [Download_button (''Download Cleaned PPTX ('' @ name file @ '')'')
              (Pptx (map (\<lambda>line. \<lparr>layout = 5, title_text = take 100 line\<rparr>)
                      (split_sep (CHR 0x0A) anonymized_text)))
              (''cleaned_'' @ name file)]
     \<and> length (split_sep (CHR 0x0A) anonymized_text) = Suc (count_list anonymized_text (CHR 0x0A))
     \<and> join [CHR 0x0A] (split_sep (CHR 0x0A) anonymized_text) = anonymized_text"
  using export_pptx[OF assms, of sv anonymized_text]
  by (simp add: add_slides_map split_sep_def split_sep_scan_length split_sep_scan_join)

theorem pptx_one_slide_per_line_witness:
  "endswith2 (name deck) (''.pptx'', ''.PPTX'')
   \<and> export quiet deck (''Intro'' @ [CHR 0x0A] @ ''Call <PERSON>'') =
       Inr [Download_button ''Download Cleaned PPTX (deck.pptx)''
              (Pptx [\<lparr>layout = 5, title_text = ''Intro''\<rparr>, \<lparr>layout = 5, title_text = ''Call <PERSON>''\<rparr>])
              ''cleaned_deck.pptx'']"
proof -
  have h: "endswith2 (name deck) (''.pptx'', ''.PPTX'')"
    by (simp add: deck_def endswith2_def endswith_def)
  show ?thesis
    using h pptx_one_slide_per_line[OF h, of quiet "''Intro'' @ [CHR 0x0A] @ ''Call <PERSON>''"]
    by (simp add: deck_def split_sep_def)
qed

section \<open>Extraction of word-processing documents\<close>

lemma foldl_append_concat':
  assumes "\<And>t x. f t x = t @ g x"
  shows "foldl f t xs = t @ concat (map g xs)"
  by (induction xs arbitrary: t) (simp_all add: assms)

lemma docx_row_text_eq:
  "docx_row_text t row = t @ concat (map (\<lambda>cell. cell @ '' '') row) @ [CHR 0x0A]"
  by (simp add: docx_row_text_def foldl_append_concat)

lemma docx_table_text_eq:
  "docx_table_text t rows =
     t @ concat (map (\<lambda>row. concat (map (\<lambda>cell. cell @ '' '') row) @ [CHR 0x0A]) rows)"
  unfolding docx_table_text_def
  by (rule foldl_append_concat') (simp add: docx_row_text_eq)

lemma docx_text_eq:
  "docx_text t doc =
     t @ concat (map (\<lambda>para. para @ [CHR 0x0A]) (paragraphs doc))
       @ concat (map (\<lambda>table.
           concat (map (\<lambda>row. concat (map (\<lambda>cell. cell @ '' '') row) @ [CHR 0x0A]) table))
         (tables doc))"
proof -
  have "foldl docx_table_text (t @ concat (map (\<lambda>para. para @ [CHR 0x0A]) (paragraphs doc)))
          (tables doc) =
        (t @ concat (map (\<lambda>para. para @ [CHR 0x0A]) (paragraphs doc)))
          @ concat (map (\<lambda>table.
           concat (map (\<lambda>row. concat (map (\<lambda>cell. cell @ '' '') row) @ [CHR 0x0A]) table))
         (tables doc))"
    by (rule foldl_append_concat') (simp add: docx_table_text_eq)
  then show ?thesis
    by (simp add: docx_text_def foldl_append_concat)
qed

text \<open>
  C4. For a file that reaches the word-processing branch (its media type is neither
  plain text nor PDF, its name ends in .docx or .DOCX) the extracted text is all paragraph
  texts in document order, each followed by a newline, and after them all table cell texts
  in table, row, cell order, each cell followed by a space and each row by a newline.
  No table text comes before a paragraph text. File_analyser.py and app.py run the same
  two loops.
\<close>

theorem docx_paragraphs_then_tables:
  assumes "type file \<noteq> ''text/plain''" and "type file \<noteq> ''application/pdf''"
    and "endswith2 (name file) (''.docx'', ''.DOCX'')"
    and "docx_document file = Some doc"
  shows "extract_text file =
     Inr (concat (map (\<lambda>para. para @ [CHR 0x0A]) (paragraphs doc))
          @ concat (map (\<lambda>table.
              concat (map (\<lambda>row. concat (map (\<lambda>cell. cell @ '' '') row) @ [CHR 0x0A]) table))
            (tables doc)))"
  using assms by (simp add: extract_text_def docx_text_eq)

theorem docx_paragraphs_then_tables_witness:
  "type memo \<noteq> ''text/plain'' \<and> type memo \<noteq> ''application/pdf''
   \<and> endswith2 (name memo) (''.docx'', ''.DOCX'')
   \<and> extract_text memo =
       Inr (''Dear Ann'' @ [CHR 0x0A] @ ''Regards'' @ [CHR 0x0A]
            @ ''a b '' @ [CHR 0x0A] @ ''c '' @ [CHR 0x0A] @ ''d '' @ [CHR 0x0A])"
proof -
  have t: "type memo \<noteq> ''text/plain''" "type memo \<noteq> ''application/pdf''"
    by (simp_all add: memo_def)
  have n: "endswith2 (name memo) (''.docx'', ''.DOCX'')"
    by (simp add: memo_def endswith2_def endswith_def)
  have d: "docx_document memo = Some \<lparr>paragraphs = [''Dear Ann'', ''Regards''],
                              tables = [[[''a'', ''b''], [''c'']], [[''d'']]]\<rparr>"
    by (simp add: memo_def)
  show ?thesis
    using t n docx_paragraphs_then_tables[OF t n d] by simp
qed

section \<open>Extraction of spreadsheets\<close>

lemma xlsx_cells_eq:
  "foldl (\<lambda>t cell. if truthy cell then t @ str cell @ '' '' else t) t row =
     t @ concat (map (\<lambda>cell. str cell @ '' '') (filter truthy row))"
  by (induction row arbitrary: t) simp_all

lemma xlsx_row_text_eq:
  "xlsx_row_text t row =
     t @ concat (map (\<lambda>cell. str cell @ '' '') (filter truthy row)) @ [CHR 0x0A]"
  by (simp add: xlsx_row_text_def xlsx_cells_eq)

lemma xlsx_sheet_text_eq:
  "xlsx_sheet_text t sheet =
     t @ concat (map (\<lambda>row. concat (map (\<lambda>cell. str cell @ '' '') (filter truthy row)) @ [CHR 0x0A])
          (iter_rows sheet))"
  unfolding xlsx_sheet_text_def
  by (rule foldl_append_concat') (simp add: xlsx_row_text_eq)

lemma xlsx_text_eq:
  "xlsx_text t workbook =
     t @ concat (map (\<lambda>sheet.
        concat (map (\<lambda>row. concat (map (\<lambda>cell. str cell @ '' '') (filter truthy row)) @ [CHR 0x0A])
          (iter_rows sheet))) workbook)"
  unfolding xlsx_text_def
  by (rule foldl_append_concat') (simp add: xlsx_sheet_text_eq)

text \<open>
  C5, as the code has it. The flattened text of a workbook is, for the sheets in order and
  the rows in order, every cell of the row that is true in Python's sense, as its \<open>str\<close>
  followed by a space, and a newline after each row. A cell that is \<open>None\<close>, zero, the
  empty string or \<open>False\<close> adds nothing, not even its space; every row ends with a newline
  and every kept cell with a space, so the text is not the space-joined, newline-joined
  view of \<open>spec_flattened_text\<close>.
\<close>

theorem xlsx_flattened_text:
  assumes "type file \<noteq> ''text/plain''" and "type file \<noteq> ''application/pdf''"
    and "endswith2 (name file) (''.xlsx'', ''.XLSX'')"
    and "load_workbook file = Some workbook"
  shows "extract_text file =
     Inr (concat (map (\<lambda>sheet.
        concat (map (\<lambda>row. concat (map (\<lambda>cell. str cell @ '' '') (filter truthy row)) @ [CHR 0x0A])
          (iter_rows sheet))) workbook))"
  using assms xlsx_not_docx[OF assms(3)] by (simp add: extract_text_def xlsx_text_eq)

theorem xlsx_flattened_text_witness:
  "type ledger \<noteq> ''text/plain'' \<and> type ledger \<noteq> ''application/pdf''
   \<and> endswith2 (name ledger) (''.xlsx'', ''.XLSX'')
   \<and> load_workbook ledger = Some ledger_book
   \<and> extract_text ledger = Inr (''Alice x '' @ [CHR 0x0A])"
proof -
  have t: "type ledger \<noteq> ''text/plain''" "type ledger \<noteq> ''application/pdf''"
    by (simp_all add: ledger_def)
  have n: "endswith2 (name ledger) (''.xlsx'', ''.XLSX'')"
    by (simp add: ledger_def endswith2_def endswith_def)
  have d: "load_workbook ledger = Some ledger_book"
    by (simp add: ledger_def)
  show ?thesis
    using t n d xlsx_flattened_text[OF t n d] by (simp add: ledger_book_def)
qed

lemma str_int_0: "str_int 0 = ''0''"
  by code_simp

theorem xlsx_flattened_text_counterexample:
  "extract_text ledger = Inr (''Alice x '' @ [CHR 0x0A])
   \<and> spec_flattened_text ledger_book = ''Alice 0 x''
   \<and> extract_text ledger \<noteq> Inr (spec_flattened_text ledger_book)"
  by (simp add: extract_text_def ledger_def ledger_book_def endswith2_def endswith_def
      xlsx_text_def xlsx_sheet_text_def xlsx_row_text_def spec_flattened_text_def
      str_int_0)

section \<open>Files of no known kind\<close>

theorem unresolved_kind_counterexample:
  "\<not> kind_resolved report_Docx \<and> \<not> isl (extract_text report_Docx)
   \<and> extract_text report_Docx = Inr []"
  by (simp add: kind_resolved_def extract_text_def report_Docx_def endswith2_def endswith_def
      startswith_def)

text \<open>
  C6, as the code has it. When no test of the extraction chain holds for a file, the
  extraction raises nothing: it returns the empty text.
\<close>

theorem unresolved_kind_empty_text:
  assumes "\<not> kind_resolved file"
  shows "extract_text file = Inr []"
  using assms by (simp add: kind_resolved_def extract_text_def)

theorem unresolved_kind_empty_text_witness:
  "\<not> kind_resolved report_Docx \<and> extract_text report_Docx = Inr []"
proof -
  have h: "\<not> kind_resolved report_Docx"
    by (simp add: kind_resolved_def report_Docx_def endswith2_def endswith_def startswith_def)
  show ?thesis using h unresolved_kind_empty_text[OF h] by simp
qed

section \<open>Spreadsheet export\<close>

text \<open>What the three loops of the export leave in the cells.\<close>

lemma write_tokens_from:
  "foldl (\<lambda>cs (c, cell_val). cs((r, c) \<mapsto> cell_val)) cs (enumerate n toks) (r', c') =
     (if r' = r \<and> n \<le> c' \<and> c' < n + length toks then Some (toks ! (c' - n)) else cs (r', c'))"
proof (induction toks arbitrary: n cs)
  case Nil
  then show ?case by auto
next
  case (Cons v toks)
  have "foldl (\<lambda>cs (c, cell_val). cs((r, c) \<mapsto> cell_val)) cs (enumerate n (v # toks)) (r', c') =
        foldl (\<lambda>cs (c, cell_val). cs((r, c) \<mapsto> cell_val)) (cs((r, n) \<mapsto> v))
          (enumerate (Suc n) toks) (r', c')"
    by (simp del: fun_upd_apply)
  also have "\<dots> = (if r' = r \<and> Suc n \<le> c' \<and> c' < Suc n + length toks
                    then Some (toks ! (c' - Suc n)) else (cs((r, n) \<mapsto> v)) (r', c'))"
    by (rule Cons.IH)
  also have "\<dots> = (if r' = r \<and> n \<le> c' \<and> c' < n + length (v # toks)
                    then Some ((v # toks) ! (c' - n)) else cs (r', c'))"
    by (auto simp: nth_Cons' Suc_diff_le)
  finally show ?case .
qed

lemma write_row_cell:
  "write_row cs r toks (r', c) =
     (if r' = r \<and> 1 \<le> c \<and> c \<le> length toks then Some (toks ! (c - 1)) else cs (r', c))"
  unfolding write_row_def write_tokens_from by auto

lemma clean_rows_other_rows:
  "clean_rows sv cs (enumerate n rows) = Inr cs' \<Longrightarrow> r < n \<or> n + length rows \<le> r
     \<Longrightarrow> cs' (r, c) = cs (r, c)"
proof (induction rows arbitrary: n cs)
  case Nil
  then show ?case by simp
next
  case (Cons row rows)
  from Cons.prems(1) obtain line where
    line: "redact sv (row_text row) = Inr line"
    and rest: "clean_rows sv (write_row cs n (split line)) (enumerate (Suc n) rows) = Inr cs'"
    by (auto split: sum.splits)
  from Cons.prems(2) have "r < Suc n \<or> Suc n + length rows \<le> r" by auto
  with rest have "cs' (r, c) = write_row cs n (split line) (r, c)" by (rule Cons.IH)
  also have "\<dots> = cs (r, c)" using Cons.prems(2) by (auto simp: write_row_cell)
  finally show ?case .
qed

lemma clean_rows_row:
  "clean_rows sv cs (enumerate n rows) = Inr cs' \<Longrightarrow> k < length rows \<Longrightarrow>
     \<exists>line. redact sv (row_text (rows ! k)) = Inr line \<and>
       (\<forall>c. cs' (n + k, c) =
          (if 1 \<le> c \<and> c \<le> length (split line) then Some (split line ! (c - 1)) else cs (n + k, c)))"
proof (induction rows arbitrary: n cs k)
  case Nil
  then show ?case by simp
next
  case (Cons row rows)
  from Cons.prems(1) obtain line where
    line: "redact sv (row_text row) = Inr line"
    and rest: "clean_rows sv (write_row cs n (split line)) (enumerate (Suc n) rows) = Inr cs'"
    by (auto split: sum.splits)
  show ?case
  proof (cases k)
    case 0
    have "cs' (n, c) = write_row cs n (split line) (n, c)" for c
      using rest by (rule clean_rows_other_rows) simp
    with line 0 show ?thesis by (simp add: write_row_cell)
  next
    case (Suc j)
    with Cons.prems(2) have j: "j < length rows" by simp
    from Cons.IH[OF rest j] obtain line' where
      l': "redact sv (row_text (rows ! j)) = Inr line'"
      and c': "\<forall>c. cs' (Suc n + j, c) =
          (if 1 \<le> c \<and> c \<le> length (split line') then Some (split line' ! (c - 1))
           else write_row cs n (split line) (Suc n + j, c))"
      by blast
    have "write_row cs n (split line) (Suc n + j, c) = cs (Suc n + j, c)" for c
      by (simp add: write_row_cell)
    with l' c' Suc show ?thesis by simp
  qed
qed

lemma clean_sheets_result:
  "clean_sheets sv acc wb = Inr clean_wb \<Longrightarrow>
     \<exists>new. clean_wb = acc @ new \<and> length new = length wb \<and> map sheet_title new = map title wb
       \<and> (\<forall>i < length wb.
            clean_rows sv Map.empty (enumerate 1 (iter_rows (wb ! i))) = Inr (cells (new ! i)))"
proof (induction wb arbitrary: acc)
  case Nil
  then show ?case by simp
next
  case (Cons sheet wb)
  from Cons.prems obtain cs where
    cs: "clean_rows sv Map.empty (enumerate 1 (iter_rows sheet)) = Inr cs"
    and rest: "clean_sheets sv (acc @ [\<lparr>sheet_title = title sheet, cells = cs\<rparr>]) wb = Inr clean_wb"
    by (auto split: sum.splits)
  from Cons.IH[OF rest] obtain new where
    new: "clean_wb = (acc @ [\<lparr>sheet_title = title sheet, cells = cs\<rparr>]) @ new"
      "length new = length wb" "map sheet_title new = map title wb"
      "\<forall>i < length wb.
            clean_rows sv Map.empty (enumerate 1 (iter_rows (wb ! i))) = Inr (cells (new ! i))"
    by blast
  let ?new = "\<lparr>sheet_title = title sheet, cells = cs\<rparr> # new"
  have "\<forall>i < length (sheet # wb).
      clean_rows sv Map.empty (enumerate 1 (iter_rows ((sheet # wb) ! i))) = Inr (cells (?new ! i))"
    using cs new(4) by (auto simp: nth_Cons')
  with new(1,2,3) show ?case
    by (intro exI[of _ ?new]) simp
qed

lemma export_xlsx:
  assumes "endswith2 (name file) (''.xlsx'', ''.XLSX'')"
  shows "export sv file anonymized_text =
     (case load_workbook file of None \<Rightarrow> Inl CorruptDocument
      | Some original_wb \<Rightarrow>
          (case clean_sheets sv [] original_wb of Inl e \<Rightarrow> Inl e
           | Inr clean_wb \<Rightarrow>
               Inr [Download_button (''Download Cleaned XLSX ('' @ name file @ '')'')
                      (Xlsx clean_wb) (''cleaned_'' @ name file)]))"
  using assms xlsx_not_txt[OF assms] xlsx_not_docx[OF assms]
  by (simp add: export_def)


text \<open>The export evaluated on a workbook of one sheet and one row.\<close>

lemma isspace_simps:
  "isspace c = (c = CHR 0x09 \<or> c = CHR 0x0A \<or> c = CHR 0x0B \<or> c = CHR 0x0C \<or> c = CHR 0x0D
     \<or> c = CHR 0x1C \<or> c = CHR 0x1D \<or> c = CHR 0x1E \<or> c = CHR 0x1F \<or> c = CHR 0x20
     \<or> c = CHR 0x85 \<or> c = CHR 0xA0)"
proof -
  have "isspace c = (of_char c \<in> (of_char :: char \<Rightarrow> nat) ` {CHR 0x09, CHR 0x0A, CHR 0x0B, CHR 0x0C, CHR 0x0D,
     CHR 0x1C, CHR 0x1D, CHR 0x1E, CHR 0x1F, CHR 0x20, CHR 0x85, CHR 0xA0})"
    by (simp add: isspace_def)
  also have "\<dots> = (c \<in> {CHR 0x09, CHR 0x0A, CHR 0x0B, CHR 0x0C, CHR 0x0D,
     CHR 0x1C, CHR 0x1D, CHR 0x1E, CHR 0x1F, CHR 0x20, CHR 0x85, CHR 0xA0})"
    by (rule inj_image_mem_iff) (simp add: inj_on_def)
  finally show ?thesis by simp
qed

lemma ledger_row_text: "row_text [CStr ''Alice'', CInt 0, CStr ''x''] = ''Alice  x''"
  by (simp add: row_text_def)

lemma split_ledger: "split ''Alice  x'' = [''Alice'', ''x'']"
  by (simp add: split_def isspace_simps)

lemma redact_quiet: "redact quiet t = Inr t"
  by (simp add: redact_def quiet_def)

lemma export_quiet_ledger:
  "export quiet ledger t =
     Inr [Download_button ''Download Cleaned XLSX (ledger.xlsx)'' (Xlsx ledger_clean)
            ''cleaned_ledger.xlsx'']"
proof -
  have n: "endswith2 (name ledger) (''.xlsx'', ''.XLSX'')"
    by (simp add: ledger_def endswith2_def endswith_def)
  have "write_row Map.empty 1 [''Alice'', ''x''] = [(1, 1) \<mapsto> ''Alice'', (1, 2) \<mapsto> ''x'']"
    by (simp add: write_row_def enumerate_eq_zip upt_rec numeral_2_eq_2)
  then have "clean_sheets quiet [] ledger_book = Inr ledger_clean"
    by (simp add: ledger_book_def ledger_clean_def ledger_row_text split_ledger redact_quiet
        enumerate_eq_zip upt_rec)
  then show ?thesis
    by (simp add: export_xlsx[OF n]) (simp add: ledger_def)
qed


lemma export_xlsx_cells:
  assumes "endswith2 (name file) (''.xlsx'', ''.XLSX'')"
    and "load_workbook file = Some original_wb"
    and "export sv file anonymized_text = Inr buttons"
  shows "\<exists>clean_wb.
     buttons = [Download_button (''Download Cleaned XLSX ('' @ name file @ '')'')
                  (Xlsx clean_wb) (''cleaned_'' @ name file)]
     \<and> length clean_wb = length original_wb
     \<and> map sheet_title clean_wb = map title original_wb
     \<and> (\<forall>i < length original_wb. \<forall>k < length (iter_rows (original_wb ! i)).
          \<exists>line. redact sv (row_text (iter_rows (original_wb ! i) ! k)) = Inr line \<and>
            (\<forall>c. cells (clean_wb ! i) (Suc k, c) =
               (if 1 \<le> c \<and> c \<le> length (split line) then Some (split line ! (c - 1)) else None)))"
proof -
  from assms obtain clean_wb where
    cw: "clean_sheets sv [] original_wb = Inr clean_wb"
    and b: "buttons = [Download_button (''Download Cleaned XLSX ('' @ name file @ '')'')
                  (Xlsx clean_wb) (''cleaned_'' @ name file)]"
    by (auto simp: export_xlsx split: sum.splits)
  from clean_sheets_result[OF cw] have
    len: "length clean_wb = length original_wb"
    and titles: "map sheet_title clean_wb = map title original_wb"
    and rows: "\<forall>i < length original_wb.
       clean_rows sv Map.empty (enumerate 1 (iter_rows (original_wb ! i))) = Inr (cells (clean_wb ! i))"
    by auto
  have "\<exists>line. redact sv (row_text (iter_rows (original_wb ! i) ! k)) = Inr line \<and>
            (\<forall>c. cells (clean_wb ! i) (Suc k, c) =
               (if 1 \<le> c \<and> c \<le> length (split line) then Some (split line ! (c - 1)) else None))"
    if "i < length original_wb" "k < length (iter_rows (original_wb ! i))" for i k
  proof -
    from rows that(1) have
      "clean_rows sv Map.empty (enumerate 1 (iter_rows (original_wb ! i))) = Inr (cells (clean_wb ! i))"
      by simp
    from clean_rows_row[OF this that(2)] show ?thesis by simp
  qed
  with b len titles show ?thesis by blast
qed

lemma redact_Inr:
  "redact sv t = Inr line \<longleftrightarrow> (\<exists>spans. analyze sv t = Some spans \<and> anonymize sv t spans = Some line)"
  by (auto simp: redact_def split: option.splits)

text \<open>
  C1. In the spreadsheet export every row is redacted as one line. For row \<open>k\<close> of sheet
  \<open>i\<close> of the re-loaded workbook, the cells are joined by spaces into one line (a cell
  that is false in Python's sense gives the empty string), the detector is called on that
  whole line, the anonymizer on the line and the spans the detector found, and the cells
  of row \<open>k + 1\<close> of the new sheet are the tokens of the anonymizer's text split on
  whitespace: read from column 1 they are exactly these tokens, and no other cell of the
  row is set.
\<close>

theorem xlsx_rows_redacted_as_lines:
  assumes "endswith2 (name file) (''.xlsx'', ''.XLSX'')"
    and "load_workbook file = Some original_wb"
    and "export sv file anonymized_text = Inr buttons"
    and "i < length original_wb" and "k < length (iter_rows (original_wb ! i))"
  shows "\<exists>clean_wb spans line.
     buttons = [Download_button (''Download Cleaned XLSX ('' @ name file @ '')'')
                  (Xlsx clean_wb) (''cleaned_'' @ name file)]
     \<and> analyze sv (join '' '' (map (\<lambda>cell. if truthy cell then str cell else [])
                                (iter_rows (original_wb ! i) ! k))) = Some spans
     \<and> anonymize sv (join '' '' (map (\<lambda>cell. if truthy cell then str cell else [])
                                (iter_rows (original_wb ! i) ! k))) spans = Some line
     \<and> map (\<lambda>c. cells (clean_wb ! i) (Suc k, c)) [1..<Suc (length (split line))]
         = map Some (split line)
     \<and> (\<forall>c. c = 0 \<or> length (split line) < c \<longrightarrow> cells (clean_wb ! i) (Suc k, c) = None)"
proof -
  from export_xlsx_cells[OF assms(1,2,3)] assms(4,5) obtain clean_wb line where
    b: "buttons = [Download_button (''Download Cleaned XLSX ('' @ name file @ '')'')
                  (Xlsx clean_wb) (''cleaned_'' @ name file)]"
    and l: "redact sv (row_text (iter_rows (original_wb ! i) ! k)) = Inr line"
    and c: "\<forall>c. cells (clean_wb ! i) (Suc k, c) =
               (if 1 \<le> c \<and> c \<le> length (split line) then Some (split line ! (c - 1)) else None)"
    by blast
  from l obtain spans where
    a: "analyze sv (row_text (iter_rows (original_wb ! i) ! k)) = Some spans"
    and n: "anonymize sv (row_text (iter_rows (original_wb ! i) ! k)) spans = Some line"
    unfolding redact_Inr by blast
  have "map (\<lambda>c. cells (clean_wb ! i) (Suc k, c)) [1..<Suc (length (split line))]
         = map Some (split line)"
    by (rule nth_equalityI) (simp_all add: c del: upt_Suc)
  moreover have "\<forall>c. c = 0 \<or> length (split line) < c \<longrightarrow> cells (clean_wb ! i) (Suc k, c) = None"
    by (auto simp: c)
  ultimately show ?thesis using b a n unfolding row_text_def by blast
qed

text \<open>
  C2. The rebuilt workbook has as many sheets as the original, with the same titles in the
  same order; and in each row the tokens of the redacted line stand in consecutive columns
  from column 1 on: token \<open>j\<close> (counted from 0) is in column \<open>j + 1\<close>, column 0 and
  the column after the last token are empty.
\<close>

theorem xlsx_sheets_and_columns:
  assumes "endswith2 (name file) (''.xlsx'', ''.XLSX'')"
    and "load_workbook file = Some original_wb"
    and "export sv file anonymized_text = Inr buttons"
  shows "\<exists>clean_wb.
     buttons = [Download_button (''Download Cleaned XLSX ('' @ name file @ '')'')
                  (Xlsx clean_wb) (''cleaned_'' @ name file)]
     \<and> length clean_wb = length original_wb
     \<and> map sheet_title clean_wb = map title original_wb
     \<and> (\<forall>i < length original_wb. \<forall>k < length (iter_rows (original_wb ! i)). \<forall>line.
          redact sv (row_text (iter_rows (original_wb ! i) ! k)) = Inr line \<longrightarrow>
            (\<forall>j < length (split line). cells (clean_wb ! i) (Suc k, Suc j) = Some (split line ! j))
            \<and> cells (clean_wb ! i) (Suc k, 0) = None
            \<and> cells (clean_wb ! i) (Suc k, Suc (length (split line))) = None)"
proof -
  from export_xlsx_cells[OF assms] obtain clean_wb where
    b: "buttons = [Download_button (''Download Cleaned XLSX ('' @ name file @ '')'')
                  (Xlsx clean_wb) (''cleaned_'' @ name file)]"
    "length clean_wb = length original_wb"
    "map sheet_title clean_wb = map title original_wb"
    and c: "\<forall>i < length original_wb. \<forall>k < length (iter_rows (original_wb ! i)).
          \<exists>line. redact sv (row_text (iter_rows (original_wb ! i) ! k)) = Inr line \<and>
            (\<forall>c. cells (clean_wb ! i) (Suc k, c) =
               (if 1 \<le> c \<and> c \<le> length (split line) then Some (split line ! (c - 1)) else None))"
    by blast
  have "(\<forall>j < length (split line). cells (clean_wb ! i) (Suc k, Suc j) = Some (split line ! j))
            \<and> cells (clean_wb ! i) (Suc k, 0) = None
            \<and> cells (clean_wb ! i) (Suc k, Suc (length (split line))) = None"
    if "i < length original_wb" "k < length (iter_rows (original_wb ! i))"
      "redact sv (row_text (iter_rows (original_wb ! i) ! k)) = Inr line" for i k line
  proof -
    from c that(1,2) obtain line' where
      "redact sv (row_text (iter_rows (original_wb ! i) ! k)) = Inr line'"
      and c': "\<forall>c. cells (clean_wb ! i) (Suc k, c) =
               (if 1 \<le> c \<and> c \<le> length (split line') then Some (split line' ! (c - 1)) else None)"
      by blast
    with that(3) have "line' = line" by simp
    with c' show ?thesis by simp
  qed
  with b show ?thesis by blast
qed

lemma row_holds_unique:
  assumes a: "\<forall>c. cs (r, c) = (if 1 \<le> c \<and> c \<le> length xs then Some (xs ! (c - 1)) else None)"
    and b: "\<forall>c. cs (r, c) = (if 1 \<le> c \<and> c \<le> length ys then Some (ys ! (c - 1)) else None)"
  shows "xs = (ys :: string list)"
proof -
  have eq: "(if 1 \<le> c \<and> c \<le> length xs then Some (xs ! (c - 1)) else None) =
            (if 1 \<le> c \<and> c \<le> length ys then Some (ys ! (c - 1)) else None)" for c
    using a b by metis
  have len: "length xs = length ys"
  proof (rule ccontr)
    assume "length xs \<noteq> length ys"
    then consider "length xs < length ys" | "length ys < length xs" by linarith
    then show False
    proof cases
      case 1
      with eq[of "length ys"] show False by (simp split: if_splits)
    next
      case 2
      with eq[of "length xs"] show False by (simp split: if_splits)
    qed
  qed
  show ?thesis
  proof (rule nth_equalityI)
    show "length xs = length ys" by (rule len)
  next
    fix i assume "i < length xs"
    with eq[of "Suc i"] len show "xs ! i = ys ! i" by simp
  qed
qed

text \<open>
  C10. The spreadsheet artifact is built by a redaction pass of its own over the workbook
  loaded again from the file. The export gives the same result whatever the redacted text
  of the document is. When it succeeds, the new workbook has a sheet for each sheet of the
  re-loaded workbook, and for every row the detector and then the anonymizer are called
  on the joined line of that row alone; row \<open>k + 1\<close> of the new sheet holds a list of
  tokens (from column 1 on, and nothing else) exactly when that list is the anonymizer's
  line of this row split on whitespace. So a line of the document-level redacted text
  agrees with the row only if its tokens are the ones the pass over the row produced.
\<close>

theorem xlsx_artifact_from_second_pass:
  assumes "endswith2 (name file) (''.xlsx'', ''.XLSX'')"
    and "load_workbook file = Some original_wb"
    and "export sv file anonymized_text = Inr buttons"
  shows "export sv file other_text = export sv file anonymized_text
     \<and> (\<exists>clean_wb.
          buttons = [Download_button (''Download Cleaned XLSX ('' @ name file @ '')'')
                       (Xlsx clean_wb) (''cleaned_'' @ name file)]
          \<and> length clean_wb = length original_wb
          \<and> (\<forall>i < length original_wb. \<forall>k < length (iter_rows (original_wb ! i)).
               \<exists>spans line.
                 analyze sv (row_text (iter_rows (original_wb ! i) ! k)) = Some spans
                 \<and> anonymize sv (row_text (iter_rows (original_wb ! i) ! k)) spans = Some line
                 \<and> (\<forall>toks.
                      (\<forall>c. cells (clean_wb ! i) (Suc k, c) =
                         (if 1 \<le> c \<and> c \<le> length toks then Some (toks ! (c - 1)) else None))
                      \<longleftrightarrow> toks = split line)))"
proof -
  have indep: "export sv file other_text = export sv file anonymized_text"
    by (simp add: export_xlsx[OF assms(1)])
  from export_xlsx_cells[OF assms] obtain clean_wb where
    b: "buttons = [Download_button (''Download Cleaned XLSX ('' @ name file @ '')'')
                  (Xlsx clean_wb) (''cleaned_'' @ name file)]"
    and len: "length clean_wb = length original_wb"
    and c: "\<forall>i < length original_wb. \<forall>k < length (iter_rows (original_wb ! i)).
          \<exists>line. redact sv (row_text (iter_rows (original_wb ! i) ! k)) = Inr line \<and>
            (\<forall>c. cells (clean_wb ! i) (Suc k, c) =
               (if 1 \<le> c \<and> c \<le> length (split line) then Some (split line ! (c - 1)) else None))"
    by blast
  have "\<exists>spans line.
                 analyze sv (row_text (iter_rows (original_wb ! i) ! k)) = Some spans
                 \<and> anonymize sv (row_text (iter_rows (original_wb ! i) ! k)) spans = Some line
                 \<and> (\<forall>toks.
                      (\<forall>c. cells (clean_wb ! i) (Suc k, c) =
                         (if 1 \<le> c \<and> c \<le> length toks then Some (toks ! (c - 1)) else None))
                      \<longleftrightarrow> toks = split line)"
    if "i < length original_wb" "k < length (iter_rows (original_wb ! i))" for i k
  proof -
    from c that obtain line where
      l: "redact sv (row_text (iter_rows (original_wb ! i) ! k)) = Inr line"
      and cl: "\<forall>c. cells (clean_wb ! i) (Suc k, c) =
               (if 1 \<le> c \<and> c \<le> length (split line) then Some (split line ! (c - 1)) else None)"
      by blast
    from l obtain spans where
      a: "analyze sv (row_text (iter_rows (original_wb ! i) ! k)) = Some spans"
      and n: "anonymize sv (row_text (iter_rows (original_wb ! i) ! k)) spans = Some line"
      unfolding redact_Inr by blast
    have "(\<forall>c. cells (clean_wb ! i) (Suc k, c) =
                 (if 1 \<le> c \<and> c \<le> length toks then Some (toks ! (c - 1)) else None))
          \<longleftrightarrow> toks = split line" for toks
    proof
      assume "\<forall>c. cells (clean_wb ! i) (Suc k, c) =
                 (if 1 \<le> c \<and> c \<le> length toks then Some (toks ! (c - 1)) else None)"
      then show "toks = split line" using cl by (rule row_holds_unique)
    next
      assume "toks = split line"
      with cl show "\<forall>c. cells (clean_wb ! i) (Suc k, c) =
                 (if 1 \<le> c \<and> c \<le> length toks then Some (toks ! (c - 1)) else None)"
        by simp
    qed
    with a n show ?thesis by blast
  qed
  with b len indep show ?thesis by blast
qed

lemma ledger_is_xlsx: "endswith2 (name ledger) (''.xlsx'', ''.XLSX'')"
  by (simp add: ledger_def endswith2_def endswith_def)

lemma ledger_loads: "load_workbook ledger = Some ledger_book"
  by (simp add: ledger_def)

lemma analyze_masking_ledger: "analyze masking ''Alice  x'' = Some [(0, 5, ''PERSON'')]"
  by (simp add: masking_def)

lemma anonymize_masking_ledger:
  "anonymize masking ''Alice  x'' [(0, 5, ''PERSON'')] = Some ''<PERSON>  x''"
  by (simp add: masking_def)

lemma split_masked_ledger: "split ''<PERSON>  x'' = [''<PERSON>'', ''x'']"
  by (simp add: split_def isspace_simps)

lemma export_masking_ledger:
  "export masking ledger t =
     Inr [Download_button ''Download Cleaned XLSX (ledger.xlsx)'' (Xlsx ledger_masked)
            ''cleaned_ledger.xlsx'']"
proof -
  have "redact masking ''Alice  x'' = Inr ''<PERSON>  x''"
    unfolding redact_Inr using analyze_masking_ledger anonymize_masking_ledger by blast
  moreover have "write_row Map.empty 1 [''<PERSON>'', ''x''] = [(1, 1) \<mapsto> ''<PERSON>'', (1, 2) \<mapsto> ''x'']"
    by (simp add: write_row_def enumerate_eq_zip upt_rec numeral_2_eq_2)
  ultimately have "clean_sheets masking [] ledger_book = Inr ledger_masked"
    by (simp add: ledger_book_def ledger_masked_def ledger_row_text split_masked_ledger
        enumerate_eq_zip upt_rec)
  then show ?thesis
    by (simp add: export_xlsx[OF ledger_is_xlsx]) (simp add: ledger_def)
qed

theorem xlsx_rows_redacted_as_lines_witness:
  "endswith2 (name ledger) (''.xlsx'', ''.XLSX'')
   \<and> load_workbook ledger = Some ledger_book
   \<and> export masking ledger ''<PERSON> x '' =
        Inr [Download_button ''Download Cleaned XLSX (ledger.xlsx)'' (Xlsx ledger_masked)
               ''cleaned_ledger.xlsx'']
   \<and> 0 < length ledger_book \<and> 0 < length (iter_rows (ledger_book ! 0))
   \<and> join '' '' (map (\<lambda>cell. if truthy cell then str cell else []) (iter_rows (ledger_book ! 0) ! 0))
        = ''Alice  x''
   \<and> analyze masking ''Alice  x'' = Some [(0, 5, ''PERSON'')]
   \<and> anonymize masking ''Alice  x'' [(0, 5, ''PERSON'')] = Some ''<PERSON>  x''
   \<and> split ''<PERSON>  x'' = [''<PERSON>'', ''x'']
   \<and> map (\<lambda>c. cells (ledger_masked ! 0) (Suc 0, c)) [1..<3] = [Some ''<PERSON>'', Some ''x'']
   \<and> cells (ledger_masked ! 0) (Suc 0, 0) = None
   \<and> cells (ledger_masked ! 0) (Suc 0, 3) = None"
proof -
  have h4: "0 < length ledger_book" and h5: "0 < length (iter_rows (ledger_book ! 0))"
    by (simp_all add: ledger_book_def)
  have j: "join '' '' (map (\<lambda>cell. if truthy cell then str cell else []) (iter_rows (ledger_book ! 0) ! 0))
        = ''Alice  x''"
    by (simp add: ledger_book_def)
  from xlsx_rows_redacted_as_lines[OF ledger_is_xlsx ledger_loads export_masking_ledger h4 h5]
  obtain clean_wb spans line where
    b: "[Download_button ''Download Cleaned XLSX (ledger.xlsx)'' (Xlsx ledger_masked)
               ''cleaned_ledger.xlsx''] =
       [Download_button (''Download Cleaned XLSX ('' @ name ledger @ '')'')
                  (Xlsx clean_wb) (''cleaned_'' @ name ledger)]"
    and a: "analyze masking ''Alice  x'' = Some spans"
    and n: "anonymize masking ''Alice  x'' spans = Some line"
    and m: "map (\<lambda>c. cells (clean_wb ! 0) (Suc 0, c)) [1..<Suc (length (split line))]
         = map Some (split line)"
    and z: "\<forall>c. c = 0 \<or> length (split line) < c \<longrightarrow> cells (clean_wb ! 0) (Suc 0, c) = None"
    unfolding j by blast
  from b have eq: "clean_wb = ledger_masked" by simp
  from a have sp: "spans = [(0, 5, ''PERSON'')]" by (simp add: analyze_masking_ledger)
  from n have ln: "line = ''<PERSON>  x''" unfolding sp by (simp add: anonymize_masking_ledger)
  from m have m': "map (\<lambda>c. cells (ledger_masked ! 0) (Suc 0, c)) [1..<3] = [Some ''<PERSON>'', Some ''x'']"
    unfolding eq ln split_masked_ledger by (simp add: numeral_3_eq_3 numeral_2_eq_2)
  from z have z0: "cells (ledger_masked ! 0) (Suc 0, 0) = None"
    and z3: "cells (ledger_masked ! 0) (Suc 0, 3) = None"
    unfolding eq ln split_masked_ledger by simp_all
  show ?thesis
    by (intro conjI ledger_is_xlsx ledger_loads export_masking_ledger h4 h5 j
        analyze_masking_ledger anonymize_masking_ledger split_masked_ledger m' z0 z3)
qed

theorem xlsx_sheets_and_columns_witness:
  "endswith2 (name ledger) (''.xlsx'', ''.XLSX'')
   \<and> load_workbook ledger = Some ledger_book
   \<and> export quiet ledger ''Alice x '' =
        Inr [Download_button ''Download Cleaned XLSX (ledger.xlsx)'' (Xlsx ledger_clean)
               ''cleaned_ledger.xlsx'']
   \<and> length ledger_clean = length ledger_book
   \<and> map sheet_title ledger_clean = map title ledger_book
   \<and> redact quiet (row_text (iter_rows (ledger_book ! 0) ! 0)) = Inr ''Alice  x''
   \<and> split ''Alice  x'' = [''Alice'', ''x'']
   \<and> cells (ledger_clean ! 0) (1, 1) = Some ''Alice''
   \<and> cells (ledger_clean ! 0) (1, 2) = Some ''x''
   \<and> cells (ledger_clean ! 0) (1, 0) = None
   \<and> cells (ledger_clean ! 0) (1, 3) = None"
proof -
  from xlsx_sheets_and_columns[OF ledger_is_xlsx ledger_loads export_quiet_ledger]
  obtain clean_wb where
    "[Download_button ''Download Cleaned XLSX (ledger.xlsx)'' (Xlsx ledger_clean)
               ''cleaned_ledger.xlsx''] =
       [Download_button (''Download Cleaned XLSX ('' @ name ledger @ '')'')
                  (Xlsx clean_wb) (''cleaned_'' @ name ledger)]"
    and len: "length clean_wb = length ledger_book"
    and titles: "map sheet_title clean_wb = map title ledger_book"
    and cols: "\<forall>i < length ledger_book. \<forall>k < length (iter_rows (ledger_book ! i)). \<forall>line.
          redact quiet (row_text (iter_rows (ledger_book ! i) ! k)) = Inr line \<longrightarrow>
            (\<forall>j < length (split line). cells (clean_wb ! i) (Suc k, Suc j) = Some (split line ! j))
            \<and> cells (clean_wb ! i) (Suc k, 0) = None
            \<and> cells (clean_wb ! i) (Suc k, Suc (length (split line))) = None"
    by blast
  then have eq: "clean_wb = ledger_clean" by simp
  have r: "redact quiet (row_text (iter_rows (ledger_book ! 0) ! 0)) = Inr ''Alice  x''"
    by (simp add: ledger_book_def ledger_row_text redact_quiet)
  have "0 < length ledger_book" "0 < length (iter_rows (ledger_book ! 0))"
    by (simp_all add: ledger_book_def)
  with cols r have
    c: "(\<forall>j < length (split ''Alice  x''). cells (clean_wb ! 0) (Suc 0, Suc j) = Some (split ''Alice  x'' ! j))
            \<and> cells (clean_wb ! 0) (Suc 0, 0) = None
            \<and> cells (clean_wb ! 0) (Suc 0, Suc (length (split ''Alice  x''))) = None"
    by blast
  then have cj: "\<And>j. j < 2 \<Longrightarrow> cells (ledger_clean ! 0) (Suc 0, Suc j) = Some ([''Alice'', ''x''] ! j)"
    and c0: "cells (ledger_clean ! 0) (Suc 0, 0) = None"
    and c3: "cells (ledger_clean ! 0) (Suc 0, Suc 2) = None"
    unfolding eq split_ledger by (simp_all add: numeral_2_eq_2)
  from cj[of 0] cj[of 1] c0 c3
  have "cells (ledger_clean ! 0) (1, 1) = Some ''Alice''"
    "cells (ledger_clean ! 0) (1, 2) = Some ''x''"
    "cells (ledger_clean ! 0) (1, 0) = None"
    "cells (ledger_clean ! 0) (1, 3) = None"
    by (simp_all add: numeral_2_eq_2 numeral_3_eq_3)
  with len titles r show ?thesis
    unfolding eq by (simp add: ledger_is_xlsx ledger_loads export_quiet_ledger split_ledger)
qed

lemma write_row_one: "write_row cs r [a] = cs((r, 1) \<mapsto> a)"
  by (simp add: write_row_def)

lemma Suc_Suc_0: "Suc (Suc 0) = 2"
  by simp

lemma write_row_two: "write_row cs r [a, b] = cs((r, 1) \<mapsto> a, (r, 2) \<mapsto> b)"
  by (simp add: write_row_def Suc_Suc_0)

lemma roster_is_xlsx: "endswith2 (name roster) (''.xlsx'', ''.XLSX'')"
  by (simp add: roster_def endswith2_def endswith_def)

lemma roster_loads: "load_workbook roster = Some roster_book"
  by (simp add: roster_def)

lemma extract_roster: "extract_text roster = Inr roster_text"
  by (simp add: extract_text_def roster_def roster_book_def roster_text_def endswith2_def
      endswith_def xlsx_text_def xlsx_sheet_text_def xlsx_row_text_def)

lemma redact_roster_text: "redact masking roster_text = Inr roster_text"
  by (simp add: redact_def masking_def roster_text_def)

lemma split_roster_line: "split ''Alice x '' = [''Alice'', ''x'']"
  by (simp add: split_def isspace_simps)

lemma analyze_masking_roster: "analyze masking ''Alice x'' = Some [(0, 5, ''PERSON'')]"
  by (simp add: masking_def)

lemma anonymize_masking_roster:
  "anonymize masking ''Alice x'' [(0, 5, ''PERSON'')] = Some ''<PERSON> x''"
  by (simp add: masking_def)

lemma split_masked_roster: "split ''<PERSON> x'' = [''<PERSON>'', ''x'']"
  by (simp add: split_def isspace_simps)

lemma export_masking_roster:
  "export masking roster t =
     Inr [Download_button ''Download Cleaned XLSX (roster.xlsx)'' (Xlsx roster_clean)
            ''cleaned_roster.xlsx'']"
proof -
  have r1: "redact masking ''Bob'' = Inr ''Bob''"
    by (simp add: redact_def masking_def)
  have r2: "redact masking ''Alice x'' = Inr ''<PERSON> x''"
    unfolding redact_Inr using analyze_masking_roster anonymize_masking_roster by blast
  have s1: "split ''Bob'' = [''Bob'']"
    by (simp add: split_def isspace_simps)
  have t1: "row_text [CStr ''Bob''] = ''Bob''" and t2: "row_text [CStr ''Alice'', CStr ''x''] = ''Alice x''"
    by (simp_all add: row_text_def)
  have w: "write_row (write_row Map.empty 1 [''Bob'']) 2 [''<PERSON>'', ''x''] =
        [(1, 1) \<mapsto> ''Bob'', (2, 1) \<mapsto> ''<PERSON>'', (2, 2) \<mapsto> ''x'']"
    by (simp only: write_row_one write_row_two)
  have cr: "clean_rows masking Map.empty [(1, [CStr ''Bob'']), (2, [CStr ''Alice'', CStr ''x''])] =
        Inr [(1, 1) \<mapsto> ''Bob'', (2, 1) \<mapsto> ''<PERSON>'', (2, 2) \<mapsto> ''x'']"
    by (simp only: clean_rows.simps t1 t2 r1 r2 s1 split_masked_roster sum.case w)
  have e: "enumerate 1 [[CStr ''Bob''], [CStr ''Alice'', CStr ''x'']] =
        [(1, [CStr ''Bob'']), (2, [CStr ''Alice'', CStr ''x''])]"
    by simp
  have "clean_sheets masking [] roster_book = Inr roster_clean"
    unfolding roster_book_def roster_clean_def
    by (simp only: clean_sheets.simps worksheet.select_convs e cr sum.case append_Nil)
  then show ?thesis
    by (simp add: export_xlsx[OF roster_is_xlsx]) (simp add: roster_def)
qed

theorem xlsx_artifact_from_second_pass_witness:
  "endswith2 (name roster) (''.xlsx'', ''.XLSX'')
   \<and> load_workbook roster = Some roster_book
   \<and> extract_text roster = Inr roster_text
   \<and> redact masking roster_text = Inr roster_text
   \<and> split_sep (CHR 0x0A) roster_text = [''Bob '', ''Alice x '', '''']
   \<and> split ''Alice x '' = [''Alice'', ''x'']
   \<and> export masking roster roster_text =
        Inr [Download_button ''Download Cleaned XLSX (roster.xlsx)'' (Xlsx roster_clean)
               ''cleaned_roster.xlsx'']
   \<and> export masking roster ''Bob'' = export masking roster roster_text
   \<and> row_text (iter_rows (roster_book ! 0) ! 1) = ''Alice x''
   \<and> analyze masking ''Alice x'' = Some [(0, 5, ''PERSON'')]
   \<and> anonymize masking ''Alice x'' [(0, 5, ''PERSON'')] = Some ''<PERSON> x''
   \<and> split ''<PERSON> x'' = [''<PERSON>'', ''x'']
   \<and> cells (roster_clean ! 0) (2, 1) = Some ''<PERSON>''
   \<and> cells (roster_clean ! 0) (2, 2) = Some ''x''
   \<and> cells (roster_clean ! 0) (2, 3) = None"
proof -
  note w = xlsx_artifact_from_second_pass[OF roster_is_xlsx roster_loads export_masking_roster]
  from w have indep: "export masking roster ''Bob'' = export masking roster roster_text"
    by (rule conjunct1)
  have rt: "row_text (iter_rows (roster_book ! 0) ! 1) = ''Alice x''"
    by (simp add: roster_book_def row_text_def)
  have h: "0 < length roster_book" "1 < length (iter_rows (roster_book ! 0))"
    by (simp_all add: roster_book_def)
  from w obtain clean_wb where
    b: "[Download_button ''Download Cleaned XLSX (roster.xlsx)'' (Xlsx roster_clean)
               ''cleaned_roster.xlsx''] =
       [Download_button (''Download Cleaned XLSX ('' @ name roster @ '')'')
                  (Xlsx clean_wb) (''cleaned_'' @ name roster)]"
    and rows: "\<forall>i < length roster_book. \<forall>k < length (iter_rows (roster_book ! i)).
               \<exists>spans line.
                 analyze masking (row_text (iter_rows (roster_book ! i) ! k)) = Some spans
                 \<and> anonymize masking (row_text (iter_rows (roster_book ! i) ! k)) spans = Some line
                 \<and> (\<forall>toks.
                      (\<forall>c. cells (clean_wb ! i) (Suc k, c) =
                         (if 1 \<le> c \<and> c \<le> length toks then Some (toks ! (c - 1)) else None))
                      \<longleftrightarrow> toks = split line)"
    by blast
  from b have eq: "clean_wb = roster_clean" by simp
  from rows h obtain spans line where
    a: "analyze masking ''Alice x'' = Some spans"
    and n: "anonymize masking ''Alice x'' spans = Some line"
    and t: "\<forall>toks.
              (\<forall>c. cells (roster_clean ! 0) (Suc 1, c) =
                 (if 1 \<le> c \<and> c \<le> length toks then Some (toks ! (c - 1)) else None))
              \<longleftrightarrow> toks = split line"
    unfolding eq rt[symmetric] by blast
  from a have sp: "spans = [(0, 5, ''PERSON'')]" by (simp add: analyze_masking_roster)
  from n have ln: "line = ''<PERSON> x''" unfolding sp by (simp add: anonymize_masking_roster)
  from t have c: "\<forall>c. cells (roster_clean ! 0) (Suc 1, c) =
       (if 1 \<le> c \<and> c \<le> length [''<PERSON>'', ''x''] then Some ([''<PERSON>'', ''x''] ! (c - 1)) else None)"
    unfolding ln split_masked_roster by blast
  from c have c1: "cells (roster_clean ! 0) (2, 1) = Some ''<PERSON>''"
    and c2: "cells (roster_clean ! 0) (2, 2) = Some ''x''"
    and c3: "cells (roster_clean ! 0) (2, 3) = None"
    by (simp_all add: numeral_2_eq_2)
  have sl: "split_sep (CHR 0x0A) roster_text = [''Bob '', ''Alice x '', '''']"
    by (simp add: split_sep_def roster_text_def)
  show ?thesis
    by (intro conjI roster_is_xlsx roster_loads extract_roster redact_roster_text sl
        split_roster_line export_masking_roster indep rt analyze_masking_roster
        anonymize_masking_roster split_masked_roster c1 c2 c3)
qed


section \<open>The upload history\<close>

lemma history_lines_append:
  "history_lines (xs @ ys) = history_lines xs @ history_lines ys"
  by (induction xs rule: history_lines.induct) simp_all

lemma history_lines_export:
  "export sv file t = Inr buttons \<Longrightarrow> history_lines buttons = []"
  by (auto simp: export_def split: if_splits option.splits sum.splits)

lemma history_lines_writes:
  "history_lines (map (\<lambda>(i, entry). Write i (filename entry) (timestamp entry)) xs) =
     map (\<lambda>(i, entry). (i, filename entry, timestamp entry)) xs"
  by (induction xs) auto

lemma add_widget_session:
  "upload_history (outcome_session (add_widget st e)) = upload_history st"
  "clock_reads (outcome_session (add_widget st e)) = clock_reads st"
  "chain_calls (outcome_session (add_widget st e)) = chain_calls st"
  by (simp_all add: add_widget_def)

lemma add_widget_completed:
  "add_widget st e = Completed st' \<Longrightarrow> st' = st\<lparr>page := page st @ [e]\<rparr>"
  by (auto simp: add_widget_def split: if_splits)

lemma download_buttons_session:
  "upload_history (outcome_session (download_buttons st buttons)) = upload_history st
   \<and> clock_reads (outcome_session (download_buttons st buttons)) = clock_reads st
   \<and> chain_calls (outcome_session (download_buttons st buttons)) = chain_calls st"
proof (induction buttons arbitrary: st)
  case Nil
  then show ?case by simp
next
  case (Cons b buttons)
  show ?case
  proof (cases "add_widget st b")
    case (Completed st1)
    from add_widget_completed[OF this] Cons.IH[of st1] Completed show ?thesis by simp
  next
    case (Aborted e st1)
    with add_widget_session[of st b] show ?thesis by simp
  qed
qed

lemma download_buttons_completed:
  "download_buttons st buttons = Completed st' \<Longrightarrow> page st' = page st @ buttons"
proof (induction buttons arbitrary: st)
  case Nil
  then show ?case by simp
next
  case (Cons b buttons)
  from Cons.prems obtain st1 where
    one: "add_widget st b = Completed st1"
    and rest: "download_buttons st1 buttons = Completed st'"
    by (auto split: outcome.splits)
  from Cons.IH[OF rest] add_widget_completed[OF one] show ?case by simp
qed

lemma process_file_completed:
  assumes "process_file sv st file = Completed st'"
  shows "upload_history st' =
           upload_history st @ [\<lparr>filename = name file, timestamp = now sv (clock_reads st)\<rparr>]"
    and "clock_reads st' = Suc (clock_reads st)"
    and "history_lines (page st') = history_lines (page st)"
proof -
  from assms obtain original_text anonymized_text st2 buttons where
    s: "show_summary sv (append_history sv st file) file anonymized_text = Completed st2"
    and x: "export sv file anonymized_text = Inr buttons"
    and d: "download_buttons st2 buttons = Completed st'"
    by (auto simp: process_file_def Let_def split: sum.splits outcome.splits)
  let ?st1 = "append_history sv st file"
  from s have st2: "st2 = ?st1\<lparr>page := page ?st1 @ [Subheader (''AI Summary for '' @ name file)],
      chain_calls := Suc (chain_calls ?st1)\<rparr>\<lparr>page := page ?st1 @ [Subheader (''AI Summary for '' @ name file)]
        @ [Text_area ''AI Summary'' (ai_summary sv (chain_calls ?st1) anonymized_text)]\<rparr>"
    unfolding show_summary_def by (auto dest: add_widget_completed)
  from download_buttons_session[of st2 buttons] d
  have k: "upload_history st' = upload_history st2" "clock_reads st' = clock_reads st2"
    by simp_all
  from k st2 show "upload_history st' =
           upload_history st @ [\<lparr>filename = name file, timestamp = now sv (clock_reads st)\<rparr>]"
    by (simp add: append_history_def)
  from k st2 show "clock_reads st' = Suc (clock_reads st)"
    by (simp add: append_history_def)
  from download_buttons_completed[OF d] st2 history_lines_export[OF x]
  show "history_lines (page st') = history_lines (page st)"
    by (simp add: append_history_def history_lines_append)
qed

lemma process_file_append_only:
  "prefix (upload_history st) (upload_history (outcome_session (process_file sv st file)))"
proof -
  have a: "prefix (upload_history st) (upload_history (append_history sv st file))"
    by (simp add: append_history_def)
  have s: "upload_history (outcome_session (show_summary sv s1 file t)) = upload_history s1" for s1 t
    unfolding show_summary_def by (simp add: add_widget_session)
  show ?thesis
  proof (cases "extract_text file")
    case (Inl e)
    then show ?thesis by (simp add: process_file_def)
  next
    case (Inr original_text)
    show ?thesis
    proof (cases "redact sv original_text")
      case (Inl e)
      with Inr a show ?thesis by (simp add: process_file_def Let_def)
    next
      case r: (Inr anonymized_text)
      show ?thesis
      proof (cases "show_summary sv (append_history sv st file) file anonymized_text")
        case (Aborted e st2)
        with s[of "append_history sv st file" anonymized_text] have "upload_history st2 = upload_history (append_history sv st file)"
          by simp
        with Inr r Aborted a show ?thesis by (simp add: process_file_def Let_def)
      next
        case (Completed st2)
        with s[of "append_history sv st file" anonymized_text]
        have h2: "upload_history st2 = upload_history (append_history sv st file)"
          by simp
        show ?thesis
        proof (cases "export sv file anonymized_text")
          case (Inl e)
          with Inr r Completed a h2 show ?thesis by (simp add: process_file_def Let_def)
        next
          case x: (Inr buttons)
          from download_buttons_session[of st2 buttons] h2
          have "upload_history (outcome_session (download_buttons st2 buttons)) =
                upload_history (append_history sv st file)"
            by simp
          with Inr r Completed x a show ?thesis by (simp add: process_file_def Let_def)
        qed
      qed
    qed
  qed
qed

lemma process_files_completed:
  "process_files sv st files = Completed st' \<Longrightarrow>
     upload_history st' = upload_history st @
       map (\<lambda>(k, file). \<lparr>filename = name file, timestamp = now sv k\<rparr>)
         (enumerate (clock_reads st) files)
     \<and> history_lines (page st') = history_lines (page st)"
proof (induction files arbitrary: st)
  case Nil
  then show ?case by simp
next
  case (Cons f files)
  from Cons.prems obtain st1 where
    one: "process_file sv st f = Completed st1"
    and rest: "process_files sv st1 files = Completed st'"
    by (auto split: outcome.splits)
  from Cons.IH[OF rest] process_file_completed[OF one] show ?case by simp
qed

lemma process_files_append_only:
  "prefix (upload_history st) (upload_history (outcome_session (process_files sv st files)))"
proof (induction files arbitrary: st)
  case Nil
  then show ?case by simp
next
  case (Cons f files)
  show ?case
  proof (cases "process_file sv st f")
    case (Completed st1)
    from process_file_append_only[of st sv f] Completed
    have "prefix (upload_history st) (upload_history st1)" by simp
    also have "prefix (upload_history st1)
        (upload_history (outcome_session (process_files sv st1 files)))"
      by (rule Cons.IH)
    finally show ?thesis using Completed by simp
  next
    case (Aborted e st1)
    with process_file_append_only[of st sv f] show ?thesis by simp
  qed
qed

text \<open>
  C9. The upload history grows by exactly one record for each processed document and is
  shown newest first. Over one run of the script, whatever its outcome, the history the
  session had is a prefix of the history it has afterwards: nothing is changed or
  removed. A document processed to its end has added exactly one record, its file name
  with the time read for it, at the end of the history. A run that reaches its end has
  added one such record for each uploaded file, in the order of the files, and the
  history lines on the page are the records of the whole history in reverse order,
  numbered from 1.
\<close>

theorem upload_history_appended_and_listed:
  "prefix (upload_history st) (upload_history (outcome_session (run_script sv st uploaded_files)))
   \<and> (process_file sv st file = Completed st1 \<longrightarrow>
        upload_history st1 =
          upload_history st @ [\<lparr>filename = name file, timestamp = now sv (clock_reads st)\<rparr>])
   \<and> (run_script sv st uploaded_files = Completed st' \<longrightarrow>
        upload_history st' = upload_history st @
          map (\<lambda>(k, file). \<lparr>filename = name file, timestamp = now sv k\<rparr>)
            (enumerate (clock_reads st) uploaded_files)
        \<and> history_lines (page st') =
            map (\<lambda>(i, entry). (i, filename entry, timestamp entry))
              (enumerate 1 (rev (upload_history st'))))"
proof (intro conjI impI)
  have "prefix (upload_history (st\<lparr>page := []\<rparr>))
      (upload_history (outcome_session (process_files sv (st\<lparr>page := []\<rparr>) uploaded_files)))"
    by (rule process_files_append_only)
  then show "prefix (upload_history st)
      (upload_history (outcome_session (run_script sv st uploaded_files)))"
    by (cases "process_files sv (st\<lparr>page := []\<rparr>) uploaded_files")
      (simp_all add: run_script_def display_history_def)
next
  assume "process_file sv st file = Completed st1"
  then show "upload_history st1 =
          upload_history st @ [\<lparr>filename = name file, timestamp = now sv (clock_reads st)\<rparr>]"
    by (rule process_file_completed(1))
next
  assume run: "run_script sv st uploaded_files = Completed st'"
  then obtain st2 where
    files: "process_files sv (st\<lparr>page := []\<rparr>) uploaded_files = Completed st2"
    and st': "st' = display_history st2"
    by (auto simp: run_script_def split: outcome.splits)
  from process_files_completed[OF files] have
    h: "upload_history st2 = upload_history st @
          map (\<lambda>(k, file). \<lparr>filename = name file, timestamp = now sv k\<rparr>)
            (enumerate (clock_reads st) uploaded_files)"
    and p: "history_lines (page st2) = []"
    by simp_all
  from h st' show "upload_history st' = upload_history st @
          map (\<lambda>(k, file). \<lparr>filename = name file, timestamp = now sv k\<rparr>)
            (enumerate (clock_reads st) uploaded_files)"
    by (simp add: display_history_def)
  from p st' show "history_lines (page st') =
            map (\<lambda>(i, entry). (i, filename entry, timestamp entry))
              (enumerate 1 (rev (upload_history st')))"
    by (simp add: display_history_def history_lines_append history_lines_writes)
qed

lemma process_letter:
  "process_file masking fresh letter =
     Completed \<lparr>upload_history = [\<lparr>filename = ''letter.txt'', timestamp = ''2024-05-01 10:00:00''\<rparr>],
       page = [Subheader ''AI Summary for letter.txt'',
               Text_area ''AI Summary'' ''Summary of Hi'',
               Download_button ''Download Cleaned TXT (letter.txt)'' (Text ''Hi'') ''cleaned_letter.txt''],
       clock_reads = 1, chain_calls = 1\<rparr>"
  by (simp add: process_file_def extract_text_def letter_def redact_def masking_def
      append_history_def show_summary_def add_widget_def ai_summary_def export_def
      endswith_def fresh_def)

lemma process_minutes:
  "process_file masking
     \<lparr>upload_history = [\<lparr>filename = ''letter.txt'', timestamp = ''2024-05-01 10:00:00''\<rparr>],
       page = [Subheader ''AI Summary for letter.txt'',
               Text_area ''AI Summary'' ''Summary of Hi'',
               Download_button ''Download Cleaned TXT (letter.txt)'' (Text ''Hi'') ''cleaned_letter.txt''],
       clock_reads = 1, chain_calls = 1\<rparr> minutes =
     Completed \<lparr>upload_history = [\<lparr>filename = ''letter.txt'', timestamp = ''2024-05-01 10:00:00''\<rparr>,
                          \<lparr>filename = ''minutes.txt'', timestamp = ''2024-05-01 10:00:05''\<rparr>],
       page = [Subheader ''AI Summary for letter.txt'',
               Text_area ''AI Summary'' ''Summary of Hi'',
               Download_button ''Download Cleaned TXT (letter.txt)'' (Text ''Hi'') ''cleaned_letter.txt'',
               Subheader ''AI Summary for minutes.txt'',
               Text_area ''AI Summary'' ''Summary of <PERSON> called'',
               Download_button ''Download Cleaned TXT (minutes.txt)'' (Text ''<PERSON> called'')
                 ''cleaned_minutes.txt''],
       clock_reads = 2, chain_calls = 2\<rparr>"
  by (simp add: process_file_def extract_text_def minutes_def redact_def masking_def
      append_history_def show_summary_def add_widget_def ai_summary_def export_def
      endswith_def)

lemma run_letter_minutes:
  "run_script masking fresh [letter, minutes] =
     Completed \<lparr>upload_history = [\<lparr>filename = ''letter.txt'', timestamp = ''2024-05-01 10:00:00''\<rparr>,
                          \<lparr>filename = ''minutes.txt'', timestamp = ''2024-05-01 10:00:05''\<rparr>],
       page = [Subheader ''AI Summary for letter.txt'',
               Text_area ''AI Summary'' ''Summary of Hi'',
               Download_button ''Download Cleaned TXT (letter.txt)'' (Text ''Hi'') ''cleaned_letter.txt'',
               Subheader ''AI Summary for minutes.txt'',
               Text_area ''AI Summary'' ''Summary of <PERSON> called'',
               Download_button ''Download Cleaned TXT (minutes.txt)'' (Text ''<PERSON> called'')
                 ''cleaned_minutes.txt'',
               Subheader ''Upload History'',
               Write 1 ''minutes.txt'' ''2024-05-01 10:00:05'',
               Write 2 ''letter.txt'' ''2024-05-01 10:00:00''],
       clock_reads = 2, chain_calls = 2\<rparr>"
proof -
  have f: "fresh\<lparr>page := []\<rparr> = fresh"
    by (simp add: fresh_def)
  have "process_files masking fresh [letter, minutes] =
     Completed \<lparr>upload_history = [\<lparr>filename = ''letter.txt'', timestamp = ''2024-05-01 10:00:00''\<rparr>,
                          \<lparr>filename = ''minutes.txt'', timestamp = ''2024-05-01 10:00:05''\<rparr>],
       page = [Subheader ''AI Summary for letter.txt'',
               Text_area ''AI Summary'' ''Summary of Hi'',
               Download_button ''Download Cleaned TXT (letter.txt)'' (Text ''Hi'') ''cleaned_letter.txt'',
               Subheader ''AI Summary for minutes.txt'',
               Text_area ''AI Summary'' ''Summary of <PERSON> called'',
               Download_button ''Download Cleaned TXT (minutes.txt)'' (Text ''<PERSON> called'')
                 ''cleaned_minutes.txt''],
       clock_reads = 2, chain_calls = 2\<rparr>"
    by (simp only: process_files.simps process_letter process_minutes outcome.case)
  then show ?thesis
    unfolding run_script_def f
    by (simp add: display_history_def)
qed

theorem upload_history_appended_and_listed_witness:
  "process_file masking fresh letter =
     Completed \<lparr>upload_history = [\<lparr>filename = ''letter.txt'', timestamp = ''2024-05-01 10:00:00''\<rparr>],
       page = [Subheader ''AI Summary for letter.txt'',
               Text_area ''AI Summary'' ''Summary of Hi'',
               Download_button ''Download Cleaned TXT (letter.txt)'' (Text ''Hi'') ''cleaned_letter.txt''],
       clock_reads = 1, chain_calls = 1\<rparr>
   \<and> run_script masking fresh [letter, minutes] =
     Completed \<lparr>upload_history = [\<lparr>filename = ''letter.txt'', timestamp = ''2024-05-01 10:00:00''\<rparr>,
                          \<lparr>filename = ''minutes.txt'', timestamp = ''2024-05-01 10:00:05''\<rparr>],
       page = [Subheader ''AI Summary for letter.txt'',
               Text_area ''AI Summary'' ''Summary of Hi'',
               Download_button ''Download Cleaned TXT (letter.txt)'' (Text ''Hi'') ''cleaned_letter.txt'',
               Subheader ''AI Summary for minutes.txt'',
               Text_area ''AI Summary'' ''Summary of <PERSON> called'',
               Download_button ''Download Cleaned TXT (minutes.txt)'' (Text ''<PERSON> called'')
                 ''cleaned_minutes.txt'',
               Subheader ''Upload History'',
               Write 1 ''minutes.txt'' ''2024-05-01 10:00:05'',
               Write 2 ''letter.txt'' ''2024-05-01 10:00:00''],
       clock_reads = 2, chain_calls = 2\<rparr>
   \<and> upload_history fresh = []
   \<and> map (\<lambda>(k, file). \<lparr>filename = name file, timestamp = now masking k\<rparr>)
         (enumerate (clock_reads fresh) [letter, minutes]) =
       [\<lparr>filename = ''letter.txt'', timestamp = ''2024-05-01 10:00:00''\<rparr>,
        \<lparr>filename = ''minutes.txt'', timestamp = ''2024-05-01 10:00:05''\<rparr>]
   \<and> history_lines
         [Subheader ''AI Summary for letter.txt'',
          Text_area ''AI Summary'' ''Summary of Hi'',
          Download_button ''Download Cleaned TXT (letter.txt)'' (Text ''Hi'') ''cleaned_letter.txt'',
          Subheader ''AI Summary for minutes.txt'',
          Text_area ''AI Summary'' ''Summary of <PERSON> called'',
          Download_button ''Download Cleaned TXT (minutes.txt)'' (Text ''<PERSON> called'')
            ''cleaned_minutes.txt'',
          Subheader ''Upload History'',
          Write 1 ''minutes.txt'' ''2024-05-01 10:00:05'',
          Write 2 ''letter.txt'' ''2024-05-01 10:00:00''] =
       [(1, ''minutes.txt'', ''2024-05-01 10:00:05''), (2, ''letter.txt'', ''2024-05-01 10:00:00'')]"
proof -
  let ?done =
    "\<lparr>upload_history = [\<lparr>filename = ''letter.txt'', timestamp = ''2024-05-01 10:00:00''\<rparr>],
       page = [Subheader ''AI Summary for letter.txt'',
               Text_area ''AI Summary'' ''Summary of Hi'',
               Download_button ''Download Cleaned TXT (letter.txt)'' (Text ''Hi'') ''cleaned_letter.txt''],
       clock_reads = 1, chain_calls = 1\<rparr>"
  let ?final =
    "\<lparr>upload_history = [\<lparr>filename = ''letter.txt'', timestamp = ''2024-05-01 10:00:00''\<rparr>,
                          \<lparr>filename = ''minutes.txt'', timestamp = ''2024-05-01 10:00:05''\<rparr>],
       page = [Subheader ''AI Summary for letter.txt'',
               Text_area ''AI Summary'' ''Summary of Hi'',
               Download_button ''Download Cleaned TXT (letter.txt)'' (Text ''Hi'') ''cleaned_letter.txt'',
               Subheader ''AI Summary for minutes.txt'',
               Text_area ''AI Summary'' ''Summary of <PERSON> called'',
               Download_button ''Download Cleaned TXT (minutes.txt)'' (Text ''<PERSON> called'')
                 ''cleaned_minutes.txt'',
               Subheader ''Upload History'',
               Write 1 ''minutes.txt'' ''2024-05-01 10:00:05'',
               Write 2 ''letter.txt'' ''2024-05-01 10:00:00''],
       clock_reads = 2, chain_calls = 2\<rparr>"
  note w = upload_history_appended_and_listed[of fresh masking "[letter, minutes]" letter ?done ?final]
  have e: "upload_history fresh = []"
    by (simp add: fresh_def)
  have m: "map (\<lambda>(k, file). \<lparr>filename = name file, timestamp = now masking k\<rparr>)
         (enumerate (clock_reads fresh) [letter, minutes]) =
       [\<lparr>filename = ''letter.txt'', timestamp = ''2024-05-01 10:00:00''\<rparr>,
        \<lparr>filename = ''minutes.txt'', timestamp = ''2024-05-01 10:00:05''\<rparr>]"
    by (simp add: fresh_def letter_def minutes_def masking_def)
  from w process_letter run_letter_minutes
  have "history_lines (page ?final) =
      map (\<lambda>(i, entry). (i, filename entry, timestamp entry))
        (enumerate 1 (rev (upload_history ?final)))"
    by blast
  then have "history_lines
         [Subheader ''AI Summary for letter.txt'',
          Text_area ''AI Summary'' ''Summary of Hi'',
          Download_button ''Download Cleaned TXT (letter.txt)'' (Text ''Hi'') ''cleaned_letter.txt'',
          Subheader ''AI Summary for minutes.txt'',
          Text_area ''AI Summary'' ''Summary of <PERSON> called'',
          Download_button ''Download Cleaned TXT (minutes.txt)'' (Text ''<PERSON> called'')
            ''cleaned_minutes.txt'',
          Subheader ''Upload History'',
          Write 1 ''minutes.txt'' ''2024-05-01 10:00:05'',
          Write 2 ''letter.txt'' ''2024-05-01 10:00:00''] =
       [(1, ''minutes.txt'', ''2024-05-01 10:00:05''), (2, ''letter.txt'', ''2024-05-01 10:00:00'')]"
    by simp
  with e m show ?thesis
    by (simp only: process_letter run_letter_minutes simp_thms)
qed

section \<open>The summary\<close>

lemma process_letter_offline:
  "process_file offline fresh letter =
     Completed \<lparr>upload_history = [\<lparr>filename = ''letter.txt'', timestamp = ''2024-05-01 10:00:00''\<rparr>],
       page = [Subheader ''AI Summary for letter.txt'',
               Text_area ''AI Summary'' ''AI summary unavailable.'',
               Download_button ''Download Cleaned TXT (letter.txt)'' (Text ''Hi'') ''cleaned_letter.txt''],
       clock_reads = 1, chain_calls = 1\<rparr>"
  by (simp add: process_file_def extract_text_def letter_def redact_def offline_def quiet_def
      append_history_def show_summary_def add_widget_def ai_summary_def export_def
      endswith_def fresh_def)

lemma process_minutes_offline:
  "process_file offline fresh minutes =
     Completed \<lparr>upload_history = [\<lparr>filename = ''minutes.txt'', timestamp = ''2024-05-01 10:00:00''\<rparr>],
       page = [Subheader ''AI Summary for minutes.txt'',
               Text_area ''AI Summary'' ''AI summary unavailable.'',
               Download_button ''Download Cleaned TXT (minutes.txt)'' (Text ''Alice called'')
                 ''cleaned_minutes.txt''],
       clock_reads = 1, chain_calls = 1\<rparr>"
  by (simp add: process_file_def extract_text_def minutes_def redact_def offline_def quiet_def
      append_history_def show_summary_def add_widget_def ai_summary_def export_def
      endswith_def fresh_def)

lemma process_minutes_after_letter_offline:
  "process_file offline
     \<lparr>upload_history = [\<lparr>filename = ''letter.txt'', timestamp = ''2024-05-01 10:00:00''\<rparr>],
       page = [Subheader ''AI Summary for letter.txt'',
               Text_area ''AI Summary'' ''AI summary unavailable.'',
               Download_button ''Download Cleaned TXT (letter.txt)'' (Text ''Hi'') ''cleaned_letter.txt''],
       clock_reads = 1, chain_calls = 1\<rparr> minutes =
     Aborted DuplicateWidgetID
       \<lparr>upload_history = [\<lparr>filename = ''letter.txt'', timestamp = ''2024-05-01 10:00:00''\<rparr>,
                          \<lparr>filename = ''minutes.txt'', timestamp = ''2024-05-01 10:00:00''\<rparr>],
        page = [Subheader ''AI Summary for letter.txt'',
                Text_area ''AI Summary'' ''AI summary unavailable.'',
                Download_button ''Download Cleaned TXT (letter.txt)'' (Text ''Hi'') ''cleaned_letter.txt'',
                Subheader ''AI Summary for minutes.txt''],
        clock_reads = 2, chain_calls = 2\<rparr>"
  by (simp add: process_file_def extract_text_def minutes_def redact_def offline_def quiet_def
      append_history_def show_summary_def add_widget_def ai_summary_def)

text \<open>
  C8. A summarizer that fails is answered by the text "AI summary unavailable.", and a run
  over one such document reaches the end of its list with that text and the download
  button on the page. The text area that shows the summary has the same label for every
  document, though, so two documents of one run whose summaries both fail ask for two
  text areas of one identity: in the batch of \<open>letter.txt\<close> and \<open>minutes.txt\<close>
  with a summarizer that always fails, the first document is processed to its end, the
  second text area raises \<open>DuplicateWidgetID\<close>, and the run stops there, with no
  summary and no download button for the second document and no history on the page.
\<close>

theorem second_summary_failure_aborts:
  "extract_text letter = Inr ''Hi'' \<and> redact offline ''Hi'' = Inr ''Hi''
   \<and> chain_run offline 0 ''Hi'' = None
   \<and> extract_text minutes = Inr ''Alice called''
   \<and> redact offline ''Alice called'' = Inr ''Alice called''
   \<and> chain_run offline 1 ''Alice called'' = None
   \<and> process_files offline fresh [letter] =
       Completed \<lparr>upload_history = [\<lparr>filename = ''letter.txt'', timestamp = ''2024-05-01 10:00:00''\<rparr>],
         page = [Subheader ''AI Summary for letter.txt'',
                 Text_area ''AI Summary'' ''AI summary unavailable.'',
                 Download_button ''Download Cleaned TXT (letter.txt)'' (Text ''Hi'') ''cleaned_letter.txt''],
         clock_reads = 1, chain_calls = 1\<rparr>
   \<and> process_files offline fresh [minutes] =
       Completed \<lparr>upload_history = [\<lparr>filename = ''minutes.txt'', timestamp = ''2024-05-01 10:00:00''\<rparr>],
         page = [Subheader ''AI Summary for minutes.txt'',
                 Text_area ''AI Summary'' ''AI summary unavailable.'',
                 Download_button ''Download Cleaned TXT (minutes.txt)'' (Text ''Alice called'')
                   ''cleaned_minutes.txt''],
         clock_reads = 1, chain_calls = 1\<rparr>
   \<and> run_script offline fresh [letter, minutes] =
       Aborted DuplicateWidgetID
         \<lparr>upload_history = [\<lparr>filename = ''letter.txt'', timestamp = ''2024-05-01 10:00:00''\<rparr>,
                            \<lparr>filename = ''minutes.txt'', timestamp = ''2024-05-01 10:00:00''\<rparr>],
          page = [Subheader ''AI Summary for letter.txt'',
                  Text_area ''AI Summary'' ''AI summary unavailable.'',
                  Download_button ''Download Cleaned TXT (letter.txt)'' (Text ''Hi'') ''cleaned_letter.txt'',
                  Subheader ''AI Summary for minutes.txt''],
          clock_reads = 2, chain_calls = 2\<rparr>"
proof -
  have e1: "extract_text letter = Inr ''Hi''"
    and e2: "extract_text minutes = Inr ''Alice called''"
    by (simp_all add: extract_text_def letter_def minutes_def)
  have r1: "redact offline ''Hi'' = Inr ''Hi''"
    and r2: "redact offline ''Alice called'' = Inr ''Alice called''"
    by (simp_all add: redact_def offline_def quiet_def)
  have c1: "chain_run offline 0 ''Hi'' = None"
    and c2: "chain_run offline 1 ''Alice called'' = None"
    by (simp_all add: offline_def)
  have s1: "process_files offline fresh [letter] =
       Completed \<lparr>upload_history = [\<lparr>filename = ''letter.txt'', timestamp = ''2024-05-01 10:00:00''\<rparr>],
         page = [Subheader ''AI Summary for letter.txt'',
                 Text_area ''AI Summary'' ''AI summary unavailable.'',
                 Download_button ''Download Cleaned TXT (letter.txt)'' (Text ''Hi'') ''cleaned_letter.txt''],
         clock_reads = 1, chain_calls = 1\<rparr>"
    by (simp only: process_files.simps process_letter_offline outcome.case)
  have s2: "process_files offline fresh [minutes] =
       Completed \<lparr>upload_history = [\<lparr>filename = ''minutes.txt'', timestamp = ''2024-05-01 10:00:00''\<rparr>],
         page = [Subheader ''AI Summary for minutes.txt'',
                 Text_area ''AI Summary'' ''AI summary unavailable.'',
                 Download_button ''Download Cleaned TXT (minutes.txt)'' (Text ''Alice called'')
                   ''cleaned_minutes.txt''],
         clock_reads = 1, chain_calls = 1\<rparr>"
    by (simp only: process_files.simps process_minutes_offline outcome.case)
  have f: "fresh\<lparr>page := []\<rparr> = fresh"
    by (simp add: fresh_def)
  have b: "run_script offline fresh [letter, minutes] =
       Aborted DuplicateWidgetID
         \<lparr>upload_history = [\<lparr>filename = ''letter.txt'', timestamp = ''2024-05-01 10:00:00''\<rparr>,
                            \<lparr>filename = ''minutes.txt'', timestamp = ''2024-05-01 10:00:00''\<rparr>],
          page = [Subheader ''AI Summary for letter.txt'',
                  Text_area ''AI Summary'' ''AI summary unavailable.'',
                  Download_button ''Download Cleaned TXT (letter.txt)'' (Text ''Hi'') ''cleaned_letter.txt'',
                  Subheader ''AI Summary for minutes.txt''],
          clock_reads = 2, chain_calls = 2\<rparr>"
    unfolding run_script_def f
    by (simp only: process_files.simps process_letter_offline
        process_minutes_after_letter_offline outcome.case)
  show ?thesis
    by (intro conjI e1 e2 r1 r2 c1 c2 s1 s2 b)
qed

section \<open>Documents without text\<close>

lemma file_analyser_warns:
  assumes "extract_text file = Inr t" and "strip t = []"
  shows "file_analyser sv groq (Some file) =
     Inr [Success (''File uploaded: '' @ name file),
          Warning ''No text could be extracted from this file.'']"
  using assms by (simp add: file_analyser_def)

lemma extract_blank: "extract_text blank = Inr [CHR 0x0A]"
  by (simp add: extract_text_def blank_def endswith2_def endswith_def docx_text_def)

lemma strip_newline: "strip [CHR 0x0A] = []"
  by (simp add: strip_def isspace_simps)

lemma export_blank:
  "export sv blank [CHR 0x0A] =
      Inr [Download_button ''Download Cleaned DOCX (blank.docx)'' (Docx ['''', ''''])
             ''cleaned_blank.docx'']"
  by (simp add: export_def blank_def endswith2_def endswith_def split_sep_def add_paragraphs_def)

text \<open>
  C7. A document whose extracted text is blank is warned about by the single-file script
  only. The file \<open>blank.docx\<close> holds one empty paragraph, so its text is a single
  newline, and stripping it leaves nothing. The single-file script shows the warning and
  neither redacts nor offers a download. The batch script has no such test: it records
  the upload, calls the detector and the anonymizer on the text (a detector that fails
  aborts the run there), shows a summary, and offers a rebuilt document of two empty
  paragraphs; it shows no warning.
\<close>

theorem empty_text_is_redacted_and_rebuilt:
  "extract_text blank = Inr [CHR 0x0A]
   \<and> strip [CHR 0x0A] = []
   \<and> file_analyser quiet None (Some blank) =
        Inr [Success ''File uploaded: blank.docx'',
             Warning ''No text could be extracted from this file.'']
   \<and> process_file quiet fresh blank =
        Completed \<lparr>upload_history = [\<lparr>filename = ''blank.docx'', timestamp = ''2024-05-01 10:00:00''\<rparr>],
          page = [Subheader ''AI Summary for blank.docx'',
                  Text_area ''AI Summary'' ''A summary.'',
                  Download_button ''Download Cleaned DOCX (blank.docx)'' (Docx ['''', ''''])
                    ''cleaned_blank.docx''],
          clock_reads = 1, chain_calls = 1\<rparr>
   \<and> process_file (quiet\<lparr>analyze := (\<lambda>t. None)\<rparr>) fresh blank =
        Aborted DetectorFailure
          \<lparr>upload_history = [\<lparr>filename = ''blank.docx'', timestamp = ''2024-05-01 10:00:00''\<rparr>],
           page = [], clock_reads = 1, chain_calls = 0\<rparr>"
proof -
  have n: "name blank = ''blank.docx''"
    by (simp add: blank_def)
  have fa: "file_analyser quiet None (Some blank) =
        Inr [Success ''File uploaded: blank.docx'',
             Warning ''No text could be extracted from this file.'']"
    using file_analyser_warns[OF extract_blank strip_newline, of quiet None] by (simp add: n)
  have p: "process_file quiet fresh blank =
        Completed \<lparr>upload_history = [\<lparr>filename = ''blank.docx'', timestamp = ''2024-05-01 10:00:00''\<rparr>],
          page = [Subheader ''AI Summary for blank.docx'',
                  Text_area ''AI Summary'' ''A summary.'',
                  Download_button ''Download Cleaned DOCX (blank.docx)'' (Docx ['''', ''''])
                    ''cleaned_blank.docx''],
          clock_reads = 1, chain_calls = 1\<rparr>"
    by (simp add: process_file_def extract_blank redact_quiet export_blank append_history_def
        show_summary_def add_widget_def ai_summary_def n Let_def)
      (simp add: quiet_def fresh_def)
  have q: "process_file (quiet\<lparr>analyze := (\<lambda>t. None)\<rparr>) fresh blank =
        Aborted DetectorFailure
          \<lparr>upload_history = [\<lparr>filename = ''blank.docx'', timestamp = ''2024-05-01 10:00:00''\<rparr>],
           page = [], clock_reads = 1, chain_calls = 0\<rparr>"
    by (simp add: process_file_def extract_blank redact_def append_history_def n
        quiet_def fresh_def)
  show ?thesis
    by (intro conjI extract_blank strip_newline fa p q)
qed

end
